theory Spec2Isabelle
  imports Main
begin

section \<open>External libraries\<close>

text \<open>
  The Go standard library and the third-party packages the repository calls are not part
  of its source.  The calls whose inner working no property below depends on are taken
  as parameters, collected in one record: every theorem that is stated for a record \<open>L\<close>
  holds for any behaviour of these functions.
  \<^item> \<open>json_Unmarshal_strings\<close>: \<open>json.Unmarshal(bytes, &[]string)\<close>, \<open>None\<close> on an error;
  \<^item> \<open>mail_ParseAddress\<close>: \<open>net/mail.ParseAddress\<close>, \<open>Some msg\<close> is the error;
  \<^item> \<open>regexp_MatchString\<close>: \<open>regexp.MustCompile(pattern).MatchString(s)\<close>;
  \<^item> \<open>bcrypt_hash\<close>: the salted hash bcrypt computes for a password and a cost it
    accepts (the random salt is folded into the function);
  \<^item> \<open>bcrypt_CompareHashAndPassword\<close>: \<open>None\<close> when hash and password match;
  \<^item> \<open>hmac_Sum\<close>: the HMAC of a message under a key, for a given hash function.
\<close>

datatype bcrypt_error = ErrMismatchedHashAndPassword | ErrBcryptOther string

datatype hash = SHA256 | SHA384 | SHA512

record golibs =
  json_Unmarshal_strings :: "string \<Rightarrow> string list option"
  mail_ParseAddress :: "string \<Rightarrow> string option"
  regexp_MatchString :: "string \<Rightarrow> string \<Rightarrow> bool"
  bcrypt_hash :: "string \<Rightarrow> nat \<Rightarrow> string"
  bcrypt_CompareHashAndPassword :: "string \<Rightarrow> string \<Rightarrow> bcrypt_error option"
  hmac_Sum :: "hash \<Rightarrow> string \<Rightarrow> string \<Rightarrow> string"

text \<open>
  Times are Unix nanoseconds, durations are nanoseconds (\<open>time.Duration\<close>).  Both are
  unbounded integers: the overflow of Go's 64-bit nanoseconds, beyond the year 2262, is
  outside the model.
\<close>

type_synonym Time = int
type_synonym Duration = int

definition Second :: Duration where
  "Second = 1000000000"

definition Hour :: Duration where
  "Hour = 3600 * Second"

section \<open>Domain: roles (internal/domain/role.go)\<close>

record Role =
  Role_ID :: string
  Role_Name :: string
  Role_Description :: "string option"
  Role_Permissions :: string
  Role_CreatedAt :: Time
  Role_UpdatedAt :: Time

definition GetPermissions :: "golibs \<Rightarrow> Role \<Rightarrow> string list" where
  "GetPermissions L r =
     (case json_Unmarshal_strings L (Role_Permissions r) of
        None \<Rightarrow> []
      | Some perms \<Rightarrow> perms)"

text \<open>The loop of \<open>HasPermission\<close> over the permissions, returning at the first hit.\<close>

fun HasPermission_loop :: "string list \<Rightarrow> string \<Rightarrow> bool" where
  "HasPermission_loop [] permission = False"
| "HasPermission_loop (perm # perms) permission =
     (if perm = ''*'' \<or> perm = permission then True
      else HasPermission_loop perms permission)"

definition HasPermission :: "golibs \<Rightarrow> Role \<Rightarrow> string \<Rightarrow> bool" where
  "HasPermission L r permission = HasPermission_loop (GetPermissions L r) permission"

text \<open>
  \<open>HasAllPermissions\<close> first fills \<open>permMap\<close>, a \<open>map[string]bool\<close>; reading a missing
  key of it gives \<open>false\<close>.
\<close>

fun permMap_fill :: "string list \<Rightarrow> (string \<rightharpoonup> bool) \<Rightarrow> (string \<rightharpoonup> bool)" where
  "permMap_fill [] permMap = permMap"
| "permMap_fill (perm # perms) permMap = permMap_fill perms (permMap(perm \<mapsto> True))"

definition permMap_get :: "(string \<rightharpoonup> bool) \<Rightarrow> string \<Rightarrow> bool" where
  "permMap_get permMap k = (case permMap k of None \<Rightarrow> False | Some b \<Rightarrow> b)"

fun HasAllPermissions_loop :: "(string \<rightharpoonup> bool) \<Rightarrow> string list \<Rightarrow> bool" where
  "HasAllPermissions_loop permMap [] = True"
| "HasAllPermissions_loop permMap (required # rest) =
     (if \<not> permMap_get permMap required then False
      else HasAllPermissions_loop permMap rest)"

definition HasAllPermissions :: "golibs \<Rightarrow> Role \<Rightarrow> string list \<Rightarrow> bool" where
  "HasAllPermissions L r permissions =
     (let permMap = permMap_fill (GetPermissions L r) Map.empty in
      if permMap_get permMap ''*'' then True
      else HasAllPermissions_loop permMap permissions)"

section \<open>Go strings\<close>

text \<open>
  \<open>strings.Split(s, sep)\<close> for a separator of one byte: the pieces between the
  separators, so \<open>Split "" sep\<close> is the list of one empty string.  \<open>Join\<close> is
  \<open>strings.Join\<close>, \<open>Contains\<close> is \<open>strings.Contains\<close>.
\<close>

fun Split :: "string \<Rightarrow> char \<Rightarrow> string list" where
  "Split [] sep = [[]]"
| "Split (c # cs) sep =
     (if c = sep then [] # Split cs sep
      else (case Split cs sep of
              [] \<Rightarrow> [[c]]
            | p # ps \<Rightarrow> (c # p) # ps))"

fun Join :: "string list \<Rightarrow> char \<Rightarrow> string" where
  "Join [] sep = []"
| "Join [p] sep = p"
| "Join (p # q # ps) sep = p @ sep # Join (q # ps) sep"

fun HasPrefix :: "string \<Rightarrow> string \<Rightarrow> bool" where
  "HasPrefix s [] = True"
| "HasPrefix [] (p # ps) = False"
| "HasPrefix (c # cs) (p # ps) = (c = p \<and> HasPrefix cs ps)"

fun Contains :: "string \<Rightarrow> string \<Rightarrow> bool" where
  "Contains [] substr = (substr = [])"
| "Contains (c # cs) substr = (HasPrefix (c # cs) substr \<or> Contains cs substr)"

section \<open>The token library (github.com/golang-jwt/jwt/v5)\<close>

text \<open>
  The library is not part of the repository; this is a model of what its documented
  algorithm does for the calls the repository makes.  A token is the string
  \<open>header.claims.signature\<close>.  The library writes header and claims as JSON and each
  segment in base64url; the model keeps the three segments and the dots, and has the
  two layers apart.
  \<^item> base64url is injective on all byte strings, and so is what stands for it here,
    \<open>EncodeSegment\<close>: two hexadecimal digits for each byte, an alphabet without dot,
    comma and space.
  \<^item> JSON is not: \<open>encoding/json\<close> writes a string as UTF-8 and puts U+FFFD in the
    place of every byte that is not part of a well-formed UTF-8 sequence, and it reads a
    string the same way.  \<open>json_string\<close> below is that; the claims pass their strings
    through it when they are written and when they are read.  A number is written in
    decimal digits, and the fields of the claims are set apart by commas.
  The header is the JSON object with the name of the algorithm; the model keeps the
  name.  The library writes the names of its own methods, which are ASCII and which JSON
  writes as they are; the name it reads from a token goes through \<open>json_string\<close> like
  the strings of the claims.
\<close>

subsection \<open>UTF-8 and the strings of JSON\<close>

text \<open>
  \<open>DecodeRune_size\<close> is \<open>utf8.DecodeRuneInString\<close> as far as the size goes: \<open>Some n\<close>
  when the string starts with a well-formed sequence of \<open>n\<close> bytes, \<open>None\<close> when the
  library answers \<open>RuneError\<close> of width 1.  The ranges are those of the library's
  tables: the second byte of a sequence is bound by its first byte, every later byte is
  a continuation byte \<open>0x80..0xBF\<close>.
\<close>

definition byte_in :: "char \<Rightarrow> nat \<Rightarrow> nat \<Rightarrow> bool" where
  "byte_in c lo hi = (lo \<le> (of_char c :: nat) \<and> (of_char c :: nat) \<le> hi)"

fun conts :: "nat \<Rightarrow> string \<Rightarrow> bool" where
  "conts 0 bs = True"
| "conts (Suc n) [] = False"
| "conts (Suc n) (b # bs) = (byte_in b 128 191 \<and> conts n bs)"

definition second_ok :: "nat \<Rightarrow> nat \<Rightarrow> nat \<Rightarrow> string \<Rightarrow> bool" where
  "second_ok lo hi n bs =
     (case bs of
        [] \<Rightarrow> False
      | b1 # r \<Rightarrow> byte_in b1 lo hi \<and> conts n r)"

definition DecodeRune_size :: "string \<Rightarrow> nat option" where
  "DecodeRune_size s =
     (case s of
        [] \<Rightarrow> None
      | b0 # bs \<Rightarrow>
          (let x = (of_char b0 :: nat) in
           if x < 128 then Some 1
           else if 194 \<le> x \<and> x \<le> 223 then (if second_ok 128 191 0 bs then Some 2 else None)
           else if x = 224 then (if second_ok 160 191 1 bs then Some 3 else None)
           else if 225 \<le> x \<and> x \<le> 236 then (if second_ok 128 191 1 bs then Some 3 else None)
           else if x = 237 then (if second_ok 128 159 1 bs then Some 3 else None)
           else if 238 \<le> x \<and> x \<le> 239 then (if second_ok 128 191 1 bs then Some 3 else None)
           else if x = 240 then (if second_ok 144 191 2 bs then Some 4 else None)
           else if 241 \<le> x \<and> x \<le> 243 then (if second_ok 128 191 2 bs then Some 4 else None)
           else if x = 244 then (if second_ok 128 143 2 bs then Some 4 else None)
           else None))"

text \<open>
  \<open>utf8.ValidString\<close>: the string is a row of well-formed sequences.  The number is
  that of the bytes of the current sequence still to come.
\<close>

fun Valid_from :: "nat \<Rightarrow> string \<Rightarrow> bool" where
  "Valid_from k [] = (k = 0)"
| "Valid_from (Suc k) (b # bs) = Valid_from k bs"
| "Valid_from 0 (b # bs) =
     (case DecodeRune_size (b # bs) of
        None \<Rightarrow> False
      | Some n \<Rightarrow> Valid_from (n - 1) bs)"

definition ValidString :: "string \<Rightarrow> bool" where
  "ValidString s = Valid_from 0 s"

text \<open>
  What \<open>encoding/json\<close> makes of a string, writing or reading it: a well-formed
  sequence is kept, and each other byte becomes U+FFFD, the three bytes \<open>EF BF BD\<close>.
  (The escapes JSON writes for quotes, control characters and the like are read back
  as the bytes they stand for.)
\<close>

fun json_copy :: "nat \<Rightarrow> string \<Rightarrow> string" where
  "json_copy k [] = []"
| "json_copy (Suc k) (b # bs) = b # json_copy k bs"
| "json_copy 0 (b # bs) =
     (case DecodeRune_size (b # bs) of
        None \<Rightarrow> [CHR 0xEF, CHR 0xBF, CHR 0xBD] @ json_copy 0 bs
      | Some n \<Rightarrow> b # json_copy (n - 1) bs)"

definition json_string :: "string \<Rightarrow> string" where
  "json_string s = json_copy 0 s"

subsection \<open>Segments, numbers and claims\<close>

definition hexdigit :: "nat \<Rightarrow> char" where
  "hexdigit n = (if n < 10 then char_of (48 + n) else char_of (87 + n))"

definition hexval :: "char \<Rightarrow> nat option" where
  "hexval c =
     (let k = (of_char c :: nat) in
      if 48 \<le> k \<and> k < 58 then Some (k - 48)
      else if 97 \<le> k \<and> k < 103 then Some (k - 87)
      else None)"

fun EncodeSegment :: "string \<Rightarrow> string" where
  "EncodeSegment [] = []"
| "EncodeSegment (c # cs) =
     hexdigit (of_char c div 16) # hexdigit (of_char c mod 16) # EncodeSegment cs"

fun DecodeSegment :: "string \<Rightarrow> string option" where
  "DecodeSegment [] = Some []"
| "DecodeSegment [a] = None"
| "DecodeSegment (a # b # cs) =
     (case hexval a of
        None \<Rightarrow> None
      | Some x \<Rightarrow>
          (case hexval b of
             None \<Rightarrow> None
           | Some y \<Rightarrow>
               (case DecodeSegment cs of
                  None \<Rightarrow> None
                | Some s \<Rightarrow> Some (char_of (16 * x + y) # s))))"

fun FormatNat :: "nat \<Rightarrow> string" where
  "FormatNat n =
     (if n < 10 then [char_of (48 + n)]
      else FormatNat (n div 10) @ [char_of (48 + n mod 10)])"

declare FormatNat.simps [simp del]

definition is_digit :: "char \<Rightarrow> bool" where
  "is_digit c = (48 \<le> (of_char c :: nat) \<and> (of_char c :: nat) < 58)"

definition ParseNat :: "string \<Rightarrow> nat option" where
  "ParseNat s =
     (if s \<noteq> [] \<and> list_all is_digit s
      then Some (foldl (\<lambda>a c. 10 * a + (of_char c - 48)) 0 s)
      else None)"

definition FormatInt :: "int \<Rightarrow> string" where
  "FormatInt i = (if i < 0 then CHR ''-'' # FormatNat (nat (- i)) else FormatNat (nat i))"

definition ParseInt :: "string \<Rightarrow> int option" where
  "ParseInt s =
     (case s of
        [] \<Rightarrow> None
      | c # cs \<Rightarrow>
          if c = CHR ''-'' then map_option (\<lambda>n. - int n) (ParseNat cs)
          else map_option int (ParseNat s))"

text \<open>
  A \<open>NumericDate\<close> is a time cut to whole seconds (the library's \<open>TimePrecision\<close>);
  the model keeps the number of seconds.  A claim that is absent is \<open>None\<close>.
\<close>

type_synonym NumericDate = int

definition NewNumericDate :: "Time \<Rightarrow> NumericDate" where
  "NewNumericDate t = t div Second"

definition NumericDate_Time :: "NumericDate \<Rightarrow> Time" where
  "NumericDate_Time d = d * Second"

definition EncodeNumericDate :: "NumericDate option \<Rightarrow> string" where
  "EncodeNumericDate d = (case d of None \<Rightarrow> [] | Some n \<Rightarrow> FormatInt n)"

definition DecodeNumericDate :: "string \<Rightarrow> NumericDate option option" where
  "DecodeNumericDate s = (if s = [] then Some None else map_option Some (ParseInt s))"

text \<open>
  \<open>Claims\<close> of internal/usecase/auth/jwt_service.go: the two fields of the repository
  and, of the embedded \<open>jwt.RegisteredClaims\<close>, the fields the repository sets or the
  library's validator reads by default (subject, audience and token id are never set
  and never read).
\<close>

record Claims =
  Claims_UserID :: string
  Claims_Email :: string
  Claims_Issuer :: string
  Claims_ExpiresAt :: "NumericDate option"
  Claims_NotBefore :: "NumericDate option"
  Claims_IssuedAt :: "NumericDate option"

text \<open>
  \<open>EncodeClaims\<close> is \<open>json.Marshal\<close> of the claims and base64url of the result,
  \<open>DecodeClaims\<close> the way back (\<open>None\<close> for a segment that is not such an encoding).
  Writing and then reading claims gives their numbers back, and their strings as JSON
  leaves them.
\<close>

definition EncodeClaims :: "Claims \<Rightarrow> string" where
  "EncodeClaims c =
     Join [EncodeSegment (json_string (Claims_UserID c)),
           EncodeSegment (json_string (Claims_Email c)),
           EncodeSegment (json_string (Claims_Issuer c)),
           EncodeNumericDate (Claims_ExpiresAt c),
           EncodeNumericDate (Claims_NotBefore c), EncodeNumericDate (Claims_IssuedAt c)]
       (CHR '','')"

definition DecodeClaims :: "string \<Rightarrow> Claims option" where
  "DecodeClaims s =
     (case Split s (CHR '','') of
        [f0, f1, f2, f3, f4, f5] \<Rightarrow>
          (case (DecodeSegment f0, DecodeSegment f1, DecodeSegment f2) of
             (Some uid, Some email, Some iss) \<Rightarrow>
               (case (DecodeNumericDate f3, DecodeNumericDate f4, DecodeNumericDate f5) of
                  (Some ex, Some nbf, Some iat) \<Rightarrow>
                    Some \<lparr> Claims_UserID = json_string uid,
                           Claims_Email = json_string email,
                           Claims_Issuer = json_string iss,
                           Claims_ExpiresAt = ex, Claims_NotBefore = nbf,
                           Claims_IssuedAt = iat \<rparr>
                | _ \<Rightarrow> None)
           | _ \<Rightarrow> None)
      | _ \<Rightarrow> None)"

text \<open>The signing methods the library registers, and their \<open>alg\<close> names.\<close>

datatype SigningMethod =
    SigningMethodHMAC hash
  | SigningMethodRSA hash
  | SigningMethodRSAPSS hash
  | SigningMethodECDSA hash
  | SigningMethodEd25519
  | SigningMethodNone

fun hash_bits :: "hash \<Rightarrow> string" where
  "hash_bits SHA256 = ''256''"
| "hash_bits SHA384 = ''384''"
| "hash_bits SHA512 = ''512''"

fun Alg :: "SigningMethod \<Rightarrow> string" where
  "Alg (SigningMethodHMAC h) = ''HS'' @ hash_bits h"
| "Alg (SigningMethodRSA h) = ''RS'' @ hash_bits h"
| "Alg (SigningMethodRSAPSS h) = ''PS'' @ hash_bits h"
| "Alg (SigningMethodECDSA h) = ''ES'' @ hash_bits h"
| "Alg SigningMethodEd25519 = ''EdDSA''"
| "Alg SigningMethodNone = ''none''"

definition signingMethods :: "SigningMethod list" where
  "signingMethods =
     [SigningMethodHMAC SHA256, SigningMethodHMAC SHA384, SigningMethodHMAC SHA512,
      SigningMethodRSA SHA256, SigningMethodRSA SHA384, SigningMethodRSA SHA512,
      SigningMethodRSAPSS SHA256, SigningMethodRSAPSS SHA384, SigningMethodRSAPSS SHA512,
      SigningMethodECDSA SHA256, SigningMethodECDSA SHA384, SigningMethodECDSA SHA512,
      SigningMethodEd25519, SigningMethodNone]"

definition GetSigningMethod :: "string \<Rightarrow> SigningMethod option" where
  "GetSigningMethod alg = find (\<lambda>m. Alg m = alg) signingMethods"

section \<open>Errors\<close>

text \<open>
  A Go \<open>error\<close> is a value with a message.  The datatype has one constructor for each
  place where the modelled code makes an error; an error wrapped with \<open>%w\<close> keeps the
  error inside.  The first group are the errors of the token library, the second those
  of the repository.  \<open>ErrUserNotFound\<close> and \<open>ErrDuplicateEmail\<close> are what the user
  repository answers, whose implementation is not in the source.
\<close>

datatype claims_failure = ErrTokenExpired | ErrTokenNotValidYet

datatype error =
    ErrTokenMalformed
  | ErrTokenUnverifiable string
  | ErrTokenSignatureInvalid
  | ErrTokenInvalidClaims "claims_failure list"
  | ErrInvalidKeyType
  | ErrInvalidToken error
  | ErrInvalidTokenClaims
  | ErrInvalidEmailFormat string
  | ErrEmailPattern
  | ErrEmailAlreadyRegistered
  | ErrPasswordTooShort
  | ErrPasswordEmpty
  | ErrHashFailed string
  | ErrInvalidPassword
  | ErrPasswordVerification bcrypt_error
  | ErrKeyNotFound string
  | ErrUserNotFound
  | ErrDuplicateEmail

section \<open>The token library: signing, parsing and validating\<close>

record Token =
  Token_Method :: SigningMethod
  Token_Claims :: Claims
  Token_Signature :: string
  Token_Valid :: bool

text \<open>
  \<open>SigningString\<close>: the first two segments.  \<open>Sign\<close> and \<open>Verify\<close> with a key of type
  \<open>[]byte\<close>, the only type of key the repository passes: the HMAC methods compute the
  MAC of the signing string, every other method refuses the key.
\<close>

definition SigningString :: "SigningMethod \<Rightarrow> Claims \<Rightarrow> string" where
  "SigningString method claims = EncodeSegment (Alg method) @ ''.'' @ EncodeClaims claims"

definition Sign :: "golibs \<Rightarrow> SigningMethod \<Rightarrow> string \<Rightarrow> string \<Rightarrow> error + string" where
  "Sign L method signingString key =
     (case method of
        SigningMethodHMAC h \<Rightarrow> Inr (hmac_Sum L h key signingString)
      | _ \<Rightarrow> Inl ErrInvalidKeyType)"

definition Verify :: "golibs \<Rightarrow> SigningMethod \<Rightarrow> string \<Rightarrow> string \<Rightarrow> string \<Rightarrow> error option" where
  "Verify L method signingString sig key =
     (case method of
        SigningMethodHMAC h \<Rightarrow>
          if hmac_Sum L h key signingString = sig then None
          else Some ErrTokenSignatureInvalid
      | _ \<Rightarrow> Some ErrInvalidKeyType)"

definition SignedString :: "golibs \<Rightarrow> SigningMethod \<Rightarrow> Claims \<Rightarrow> string \<Rightarrow> error + string" where
  "SignedString L method claims key =
     (let sstr = SigningString method claims in
      case Sign L method sstr key of
        Inl e \<Rightarrow> Inl e
      | Inr sig \<Rightarrow> Inr (sstr @ ''.'' @ EncodeSegment sig))"

text \<open>
  The validator with its default options: \<open>exp\<close> and \<open>nbf\<close> are checked when present
  (a token is expired unless \<open>now\<close> is before \<open>exp\<close>), \<open>iat\<close>, issuer, audience and
  subject are not checked.  It returns the list of the checks that failed.
\<close>

definition Validator_Validate :: "Time \<Rightarrow> Claims \<Rightarrow> claims_failure list" where
  "Validator_Validate now claims =
     (case Claims_ExpiresAt claims of
        None \<Rightarrow> []
      | Some ex \<Rightarrow> if now < NumericDate_Time ex then [] else [ErrTokenExpired])
     @
     (case Claims_NotBefore claims of
        None \<Rightarrow> []
      | Some nbf \<Rightarrow> if NumericDate_Time nbf \<le> now then [] else [ErrTokenNotValidYet])"

text \<open>
  \<open>ParseWithClaims\<close> in the library's order: split into three segments, decode header
  and claims, look the method up by the header's \<open>alg\<close> as JSON gives it, decode the signature, ask the
  key function for the key, verify the signature, validate the claims; only then is the
  token marked valid.  \<open>keyFunc\<close> sees the token's method and answers a key or an error
  message.  \<open>now\<close> is the clock the validator reads.
\<close>

definition ParseWithClaims ::
  "golibs \<Rightarrow> Time \<Rightarrow> string \<Rightarrow> (SigningMethod \<Rightarrow> string + string) \<Rightarrow> error + Token" where
  "ParseWithClaims L now tokenString keyFunc =
     (case Split tokenString (CHR ''.'') of
        [p0, p1, p2] \<Rightarrow>
          (case DecodeSegment p0 of
             None \<Rightarrow> Inl ErrTokenMalformed
           | Some alg \<Rightarrow>
          (case DecodeClaims p1 of
             None \<Rightarrow> Inl ErrTokenMalformed
           | Some claims \<Rightarrow>
          (case GetSigningMethod (json_string alg) of
             None \<Rightarrow> Inl (ErrTokenUnverifiable ''signing method (alg) is unavailable'')
           | Some method \<Rightarrow>
          (case DecodeSegment p2 of
             None \<Rightarrow> Inl ErrTokenMalformed
           | Some sig \<Rightarrow>
          (case keyFunc method of
             Inl msg \<Rightarrow> Inl (ErrTokenUnverifiable msg)
           | Inr key \<Rightarrow>
          (case Verify L method (p0 @ ''.'' @ p1) sig key of
             Some e \<Rightarrow> Inl ErrTokenSignatureInvalid
           | None \<Rightarrow>
          (case Validator_Validate now claims of
             [] \<Rightarrow> Inr \<lparr> Token_Method = method, Token_Claims = claims,
                         Token_Signature = sig, Token_Valid = True \<rparr>
           | e # es \<Rightarrow> Inl (ErrTokenInvalidClaims (e # es)))))))))
      | _ \<Rightarrow> Inl ErrTokenMalformed)"

section \<open>JWTService (internal/usecase/auth/jwt_service.go)\<close>

record JWTConfig =
  JWT_Secret :: string
  JWT_AccessTokenExpiry :: Duration
  JWT_RefreshTokenExpiry :: Duration
  JWT_Issuer :: string

record JWTService =
  cfg :: JWTConfig

text \<open>\<open>now\<close> is what \<open>time.Now()\<close> returns; the clock is read once for each operation.\<close>

definition GenerateAccessToken ::
  "golibs \<Rightarrow> JWTService \<Rightarrow> Time \<Rightarrow> string \<Rightarrow> string \<Rightarrow> error + string" where
  "GenerateAccessToken L s now userID email =
     (let claims = \<lparr>
        Claims_UserID = userID,
        Claims_Email = email,
        Claims_Issuer = JWT_Issuer (cfg s),
        Claims_ExpiresAt = Some (NewNumericDate (now + JWT_AccessTokenExpiry (cfg s))),
        Claims_NotBefore = None,
        Claims_IssuedAt = Some (NewNumericDate now) \<rparr>
      in SignedString L (SigningMethodHMAC SHA256) claims (JWT_Secret (cfg s)))"

definition GenerateRefreshToken ::
  "golibs \<Rightarrow> JWTService \<Rightarrow> Time \<Rightarrow> string \<Rightarrow> error + string" where
  "GenerateRefreshToken L s now userID =
     (let claims = \<lparr>
        Claims_UserID = userID,
        Claims_Email = [],
        Claims_Issuer = JWT_Issuer (cfg s),
        Claims_ExpiresAt = Some (NewNumericDate (now + JWT_RefreshTokenExpiry (cfg s))),
        Claims_NotBefore = None,
        Claims_IssuedAt = Some (NewNumericDate now) \<rparr>
      in SignedString L (SigningMethodHMAC SHA256) claims (JWT_Secret (cfg s)))"

text \<open>The key function of \<open>ValidateToken\<close>: only an HMAC method gets the secret.\<close>

definition ValidateToken_keyFunc :: "JWTService \<Rightarrow> SigningMethod \<Rightarrow> string + string" where
  "ValidateToken_keyFunc s method =
     (case method of
        SigningMethodHMAC h \<Rightarrow> Inr (JWT_Secret (cfg s))
      | _ \<Rightarrow> Inl (''unexpected signing method: '' @ Alg method))"

definition ValidateToken :: "golibs \<Rightarrow> JWTService \<Rightarrow> Time \<Rightarrow> string \<Rightarrow> error + Claims" where
  "ValidateToken L s now tokenString =
     (case ParseWithClaims L now tokenString (ValidateToken_keyFunc s) of
        Inl e \<Rightarrow> Inl (ErrInvalidToken e)
      | Inr token \<Rightarrow>
          if Token_Valid token then Inr (Token_Claims token)
          else Inl ErrInvalidTokenClaims)"

section \<open>PasswordService (internal/usecase/auth)\<close>

text \<open>
  \<open>bcrypt.GenerateFromPassword\<close> (golang.org/x/crypto/bcrypt): it refuses a password
  of more than 72 bytes, raises a cost below 4 to the default 10, refuses a cost above
  31, and hashes what is left.  \<open>Inl\<close> holds the text of the error.
\<close>

definition GenerateFromPassword :: "golibs \<Rightarrow> string \<Rightarrow> nat \<Rightarrow> string + string" where
  "GenerateFromPassword L password cost =
     (if 72 < length password then Inl ''bcrypt: password length exceeds 72 bytes''
      else (let cost = (if cost < 4 then 10 else cost) in
            if 31 < cost
            then Inl (''crypto/bcrypt: cost '' @ FormatNat cost @
                      '' is outside allowed range (4,31)'')
            else Inr (bcrypt_hash L password cost)))"

definition HashPassword :: "golibs \<Rightarrow> string \<Rightarrow> error + string" where
  "HashPassword L password =
     (if password = [] then Inl ErrPasswordEmpty
      else (case GenerateFromPassword L password 12 of
              Inl msg \<Rightarrow> Inl (ErrHashFailed msg)
            | Inr hashedPass \<Rightarrow> Inr hashedPass))"

definition ComparePassword :: "golibs \<Rightarrow> string \<Rightarrow> string \<Rightarrow> error option" where
  "ComparePassword L hashedPassword password =
     (case bcrypt_CompareHashAndPassword L hashedPassword password of
        None \<Rightarrow> None
      | Some e \<Rightarrow>
          if e = ErrMismatchedHashAndPassword then Some ErrInvalidPassword
          else Some (ErrPasswordVerification e))"

section \<open>Domain: users (internal/domain)\<close>

record User =
  User_ID :: string
  User_Email :: string
  User_PasswordHash :: string
  User_Name :: string
  User_AvatarURL :: "string option"
  User_IsActive :: bool
  User_EmailVerifiedAt :: "Time option"
  User_LastLoginAt :: "Time option"
  User_CreatedAt :: Time
  User_UpdatedAt :: Time
  User_DeletedAt :: "Time option"

section \<open>The stores\<close>

text \<open>
  The cache is Redis behind \<open>RedisCache\<close> (internal/infrastructure/cache): a key holds
  a string, the TTL it was set with and the time it was set at.  A key whose TTL has run
  out is not found; a TTL of zero never runs out.  The model has no failure of the
  connection: \<open>Get\<close> fails only for a key that is not found, \<open>Set\<close> and \<open>Delete\<close>
  never fail.
\<close>

record cache_entry =
  entry_data :: string
  entry_ttl :: Duration
  entry_set_at :: Time

type_synonym redis = "string \<rightharpoonup> cache_entry"

definition entry_live :: "Time \<Rightarrow> cache_entry \<Rightarrow> bool" where
  "entry_live now e = (entry_ttl e = 0 \<or> now < entry_set_at e + entry_ttl e)"

definition RedisCache_Get :: "redis \<Rightarrow> Time \<Rightarrow> string \<Rightarrow> error + string" where
  "RedisCache_Get c now key =
     (case c key of
        None \<Rightarrow> Inl (ErrKeyNotFound key)
      | Some e \<Rightarrow> if entry_live now e then Inr (entry_data e) else Inl (ErrKeyNotFound key))"

definition RedisCache_Set :: "redis \<Rightarrow> Time \<Rightarrow> string \<Rightarrow> string \<Rightarrow> Duration \<Rightarrow> redis" where
  "RedisCache_Set c now key v ttl =
     c(key \<mapsto> \<lparr> entry_data = v, entry_ttl = ttl, entry_set_at = now \<rparr>)"

fun RedisCache_Delete :: "redis \<Rightarrow> string list \<Rightarrow> redis" where
  "RedisCache_Delete c [] = c"
| "RedisCache_Delete c (key # keys) = RedisCache_Delete (c(key := None)) keys"

record CacheKeyBuilder =
  kb_prefix :: string

definition CacheKeyBuilder_RefreshToken :: "CacheKeyBuilder \<Rightarrow> string \<Rightarrow> string" where
  "CacheKeyBuilder_RefreshToken b token = kb_prefix b @ '':refresh_token:'' @ token"

text \<open>The database and the cache together: the state the operations change.\<close>

record stores =
  st_users :: "User list"
  st_roles :: "Role list"
  st_user_roles :: "(string \<times> string) list"
  st_cache :: redis

text \<open>
  Modelled from the spec: the implementation of \<open>UserRepository.FindByID\<close> is not in
  the source (only the interface is).  The Identity Store looks a user up by id, leaves
  soft-deleted users out, and fails with its not-found error.
\<close>

definition FindByID :: "stores \<Rightarrow> string \<Rightarrow> error + User" where
  "FindByID w ident =
     (case find (\<lambda>u. User_ID u = ident \<and> User_DeletedAt u = None) (st_users w) of
        None \<Rightarrow> Inl ErrUserNotFound
      | Some u \<Rightarrow> Inr u)"

text \<open>
  Modelled from the spec: the implementation of \<open>UserRepository.FindByEmail\<close> is not in
  the source.  The lookup is by the email as stored (case-sensitive), leaves soft-deleted
  users out, and fails with the not-found error.
\<close>

definition FindByEmail :: "stores \<Rightarrow> string \<Rightarrow> error + User" where
  "FindByEmail w email =
     (case find (\<lambda>u. User_Email u = email \<and> User_DeletedAt u = None) (st_users w) of
        None \<Rightarrow> Inl ErrUserNotFound
      | Some u \<Rightarrow> Inr u)"

text \<open>
  Modelled from the spec: the implementation of \<open>UserRepository.ExistsByEmail\<close> is not
  in the source.  It tells whether a user that is not deleted has the email.
\<close>

definition ExistsByEmail :: "stores \<Rightarrow> string \<Rightarrow> bool" where
  "ExistsByEmail w email =
     list_ex (\<lambda>u. User_Email u = email \<and> User_DeletedAt u = None) (st_users w)"

text \<open>
  Modelled from the spec: the implementation of \<open>UserRepository.Create\<close> is not in the
  source.  The store keeps emails unique among the users that are not deleted (the
  uniqueness constraint the spec asks of the storage layer), gives the new row its id
  (\<open>uuid\<close>, the value the database generates) and its timestamps, and hands the row back.
\<close>

definition Create :: "Time \<Rightarrow> string \<Rightarrow> stores \<Rightarrow> User \<Rightarrow> error + (User \<times> stores)" where
  "Create now uuid w user =
     (if ExistsByEmail w (User_Email user) then Inl ErrDuplicateEmail
      else (let row = user\<lparr> User_ID := uuid, User_CreatedAt := now, User_UpdatedAt := now \<rparr>
            in Inr (row, w\<lparr> st_users := st_users w @ [row] \<rparr>)))"

text \<open>
  Modelled from the spec: the implementation of \<open>UserRepository.Update\<close> is not in the
  source.  It replaces the stored row that has the user's id, and fails with the
  not-found error when there is none.
\<close>

definition Update :: "stores \<Rightarrow> User \<Rightarrow> error + stores" where
  "Update w user =
     (if list_ex (\<lambda>u. User_ID u = User_ID user) (st_users w)
      then Inr (w\<lparr> st_users :=
                  map (\<lambda>u. if User_ID u = User_ID user then user else u) (st_users w) \<rparr>)
      else Inl ErrUserNotFound)"


section \<open>authUseCase (internal/usecase/auth)\<close>

record RegisterRequest =
  RegisterRequest_Email :: string
  RegisterRequest_Password :: string
  RegisterRequest_Name :: string

record LoginRequest =
  LoginRequest_Email :: string
  LoginRequest_Password :: string

record AuthResponse =
  AuthResponse_AccessToken :: string
  AuthResponse_RefreshToken :: string
  AuthResponse_User :: User

text \<open>
  Of the fields of \<open>authUseCase\<close>, the repository and the cache are the stores, which
  every operation takes and returns, and \<open>passwordSvc\<close> has no field of its own.
\<close>

record authUseCase =
  jwtSvc :: JWTService
  keyBuilder :: CacheKeyBuilder

definition emailRegex :: string where
  "emailRegex =
     ''^[A-Za-z0-9._%+-]+@[A-Za-z0-9.-]+'' @ [CHR 0x5C] @ ''.[A-Za-z]{2,}$''"

text \<open>
  \<open>Register\<close>.  \<open>now\<close> is the clock, \<open>uuid\<close> the id the database gives the new row.
\<close>

definition Register ::
  "golibs \<Rightarrow> authUseCase \<Rightarrow> Time \<Rightarrow> string \<Rightarrow> stores \<Rightarrow> RegisterRequest
     \<Rightarrow> (error + AuthResponse) \<times> stores" where
  "Register L uc now uuid w req =
     (case mail_ParseAddress L (RegisterRequest_Email req) of
        Some msg \<Rightarrow> (Inl (ErrInvalidEmailFormat msg), w)
      | None \<Rightarrow>
     if \<not> regexp_MatchString L emailRegex (RegisterRequest_Email req)
     then (Inl ErrEmailPattern, w)
     else if ExistsByEmail w (RegisterRequest_Email req)
     then (Inl ErrEmailAlreadyRegistered, w)
     else if length (RegisterRequest_Password req) < 8
     then (Inl ErrPasswordTooShort, w)
     else
     (case HashPassword L (RegisterRequest_Password req) of
        Inl e \<Rightarrow> (Inl e, w)
      | Inr hashedPass \<Rightarrow>
     (let user = \<lparr>
          User_ID = [],
          User_Email = RegisterRequest_Email req,
          User_PasswordHash = hashedPass,
          User_Name = RegisterRequest_Name req,
          User_AvatarURL = None,
          User_IsActive = True,
          User_EmailVerifiedAt = None,
          User_LastLoginAt = None,
          User_CreatedAt = 0,
          User_UpdatedAt = 0,
          User_DeletedAt = None \<rparr>
      in
     (case Create now uuid w user of
        Inl e \<Rightarrow> (Inl e, w)
      | Inr (user, w1) \<Rightarrow>
     (case GenerateAccessToken L (jwtSvc uc) now (User_ID user) (User_Email user) of
        Inl e \<Rightarrow> (Inl e, w1)
      | Inr accessToken \<Rightarrow>
     (case GenerateRefreshToken L (jwtSvc uc) now (User_ID user) of
        Inl e \<Rightarrow> (Inl e, w1)
      | Inr refreshToken \<Rightarrow>
     (let refreshKey = CacheKeyBuilder_RefreshToken (keyBuilder uc) refreshToken;
          w2 = w1\<lparr> st_cache :=
                 RedisCache_Set (st_cache w1) now refreshKey (User_ID user) (7 * Hour * 24) \<rparr>
      in (Inr \<lparr> AuthResponse_AccessToken = accessToken,
                AuthResponse_RefreshToken = refreshToken,
                AuthResponse_User = user \<rparr>, w2))))))))"

definition Login ::
  "golibs \<Rightarrow> authUseCase \<Rightarrow> Time \<Rightarrow> stores \<Rightarrow> LoginRequest
     \<Rightarrow> (error + AuthResponse) \<times> stores" where
  "Login L uc now w req =
     (case FindByEmail w (LoginRequest_Email req) of
        Inl e \<Rightarrow> (Inl e, w)
      | Inr user \<Rightarrow>
     (case ComparePassword L (User_PasswordHash user) (LoginRequest_Password req) of
        Some e \<Rightarrow> (Inl e, w)
      | None \<Rightarrow>
     (case GenerateAccessToken L (jwtSvc uc) now (User_ID user) (User_Email user) of
        Inl e \<Rightarrow> (Inl e, w)
      | Inr accessToken \<Rightarrow>
     (case GenerateRefreshToken L (jwtSvc uc) now (User_ID user) of
        Inl e \<Rightarrow> (Inl e, w)
      | Inr refreshToken \<Rightarrow>
     (let refreshKey = CacheKeyBuilder_RefreshToken (keyBuilder uc) refreshToken;
          w1 = w\<lparr> st_cache :=
                 RedisCache_Set (st_cache w) now refreshKey (User_ID user) (7 * Hour * 24) \<rparr>;
          user = user\<lparr> User_LastLoginAt := Some now \<rparr>
      in
     (case Update w1 user of
        Inl e \<Rightarrow> (Inl e, w1)
      | Inr w2 \<Rightarrow>
     (let user = user\<lparr> User_PasswordHash := [] \<rparr>
      in (Inr \<lparr> AuthResponse_AccessToken = accessToken,
                AuthResponse_RefreshToken = refreshToken,
                AuthResponse_User = user \<rparr>, w2))))))))"

definition RefreshToken ::
  "golibs \<Rightarrow> authUseCase \<Rightarrow> Time \<Rightarrow> stores \<Rightarrow> string
     \<Rightarrow> (error + AuthResponse) \<times> stores" where
  "RefreshToken L uc now w refreshToken =
     (let refreshKey = CacheKeyBuilder_RefreshToken (keyBuilder uc) refreshToken in
     (case RedisCache_Get (st_cache w) now refreshKey of
        Inl e \<Rightarrow> (Inl e, w)
      | Inr userID \<Rightarrow>
     (case FindByID w userID of
        Inl e \<Rightarrow> (Inl e, w)
      | Inr user \<Rightarrow>
     (case GenerateAccessToken L (jwtSvc uc) now (User_ID user) (User_Email user) of
        Inl e \<Rightarrow> (Inl e, w)
      | Inr newAccessToken \<Rightarrow>
     (case GenerateRefreshToken L (jwtSvc uc) now (User_ID user) of
        Inl e \<Rightarrow> (Inl e, w)
      | Inr newRefreshToken \<Rightarrow>
     (let w1 = w\<lparr> st_cache := RedisCache_Delete (st_cache w) [refreshKey] \<rparr>;
          newRefreshKey = CacheKeyBuilder_RefreshToken (keyBuilder uc) newRefreshToken;
          w2 = w1\<lparr> st_cache :=
                 RedisCache_Set (st_cache w1) now newRefreshKey (User_ID user) (7 * Hour * 24) \<rparr>;
          user = user\<lparr> User_PasswordHash := [] \<rparr>
      in (Inr \<lparr> AuthResponse_AccessToken = newAccessToken,
                AuthResponse_RefreshToken = newRefreshToken,
                AuthResponse_User = user \<rparr>, w2)))))))"

definition Logout :: "authUseCase \<Rightarrow> stores \<Rightarrow> string \<Rightarrow> error option \<times> stores" where
  "Logout uc w refreshToken =
     (let refreshKey = ''refresh_token:'' @ refreshToken
      in (None, w\<lparr> st_cache := RedisCache_Delete (st_cache w) [refreshKey] \<rparr>))"

section \<open>HTTP: the handlers and the bearer-token gate\<close>

text \<open>
  \<open>Error_msg\<close> is \<open>err.Error()\<close>.  The texts of the repository's own errors are those
  of the source; those of the libraries and of the user repository are stand-ins.
\<close>

fun Error_msg :: "error \<Rightarrow> string" where
  "Error_msg ErrTokenMalformed = ''token is malformed''"
| "Error_msg (ErrTokenUnverifiable msg) = ''token is unverifiable: '' @ msg"
| "Error_msg ErrTokenSignatureInvalid = ''token signature is invalid''"
| "Error_msg (ErrTokenInvalidClaims fs) = ''token has invalid claims''"
| "Error_msg ErrInvalidKeyType = ''key is of invalid type''"
| "Error_msg (ErrInvalidToken e) = ''invalid token: '' @ Error_msg e"
| "Error_msg ErrInvalidTokenClaims = ''invalid token claims''"
| "Error_msg (ErrInvalidEmailFormat msg) = ''invalid email format: '' @ msg"
| "Error_msg ErrEmailPattern = ''invalid email format: does not match required pattern''"
| "Error_msg ErrEmailAlreadyRegistered = ''email already registered''"
| "Error_msg ErrPasswordTooShort = ''password must be at least 8 characters''"
| "Error_msg ErrPasswordEmpty = ''password cannot be empty''"
| "Error_msg (ErrHashFailed msg) = ''failed to hash password: '' @ msg"
| "Error_msg ErrInvalidPassword = ''invalid password''"
| "Error_msg (ErrPasswordVerification e) = ''password verification failed''"
| "Error_msg (ErrKeyNotFound key) = ''key not found: '' @ key"
| "Error_msg ErrUserNotFound = ''user not found''"
| "Error_msg ErrDuplicateEmail = ''failed to create user: duplicate key''"

text \<open>
  What a handler answers: the status, the value given to \<open>c.JSON\<close> and the
  \<open>refresh_token\<close> cookie it sets, if any.  The JSON form of a \<open>User\<close> leaves the
  password hash out (its tag is \<open>json:"-"\<close>).
\<close>

datatype body =
    ErrorResponse string
  | AuthResponseBody string string string User

record HTTPResponse =
  status :: nat
  body :: body
  cookie :: "string option"

text \<open>
  The request is what \<open>ShouldBindJSON\<close> made of the body: \<open>None\<close> when binding failed.
\<close>

definition AuthHandler_Register ::
  "golibs \<Rightarrow> authUseCase \<Rightarrow> Time \<Rightarrow> string \<Rightarrow> stores \<Rightarrow> RegisterRequest option
     \<Rightarrow> HTTPResponse \<times> stores" where
  "AuthHandler_Register L uc now uuid w bound =
     (case bound of
        None \<Rightarrow>
          (\<lparr> status = 400, body = ErrorResponse ''Invalid request body'', cookie = None \<rparr>, w)
      | Some req \<Rightarrow>
          (case Register L uc now uuid w req of
             (Inl err, w') \<Rightarrow>
               if Contains (Error_msg err) ''already registered''
               then (\<lparr> status = 409, body = ErrorResponse ''Email already registered'',
                       cookie = None \<rparr>, w')
               else (\<lparr> status = 400, body = ErrorResponse (Error_msg err),
                       cookie = None \<rparr>, w')
           | (Inr res, w') \<Rightarrow>
               (\<lparr> status = 201,
                   body = AuthResponseBody ''User registered successfully''
                            (AuthResponse_AccessToken res) (AuthResponse_RefreshToken res)
                            (AuthResponse_User res),
                   cookie = Some (AuthResponse_RefreshToken res) \<rparr>, w')))"

definition AuthHandler_Login ::
  "golibs \<Rightarrow> authUseCase \<Rightarrow> Time \<Rightarrow> stores \<Rightarrow> LoginRequest option
     \<Rightarrow> HTTPResponse \<times> stores" where
  "AuthHandler_Login L uc now w bound =
     (case bound of
        None \<Rightarrow>
          (\<lparr> status = 400, body = ErrorResponse ''Invalid request body'', cookie = None \<rparr>, w)
      | Some req \<Rightarrow>
          (case Login L uc now w req of
             (Inl err, w') \<Rightarrow>
               (\<lparr> status = 401, body = ErrorResponse ''Invalid email or password'',
                   cookie = None \<rparr>, w')
           | (Inr res, w') \<Rightarrow>
               (\<lparr> status = 200,
                   body = AuthResponseBody ''Login successful''
                            (AuthResponse_AccessToken res) (AuthResponse_RefreshToken res)
                            (AuthResponse_User res),
                   cookie = Some (AuthResponse_RefreshToken res) \<rparr>, w')))"




section \<open>Test doubles and a concrete run\<close>

text \<open>
  A concrete instance of the external libraries, used only where a statement is
  evaluated at a concrete input: an address is accepted when it has an \<open>@\<close>, a hash
  is its password behind the prefix \<open>$2a$12$\<close>, a MAC is the key followed by the
  message.
\<close>

definition fake_Unmarshal_strings :: "string \<Rightarrow> string list option" where
  "fake_Unmarshal_strings s =
     (if s = ''[]'' then Some []
      else if s = [CHR ''['', CHR 0x22, CHR ''*'', CHR 0x22, CHR '']''] then Some [''*'']
      else None)"

definition fake_libs :: golibs where
  "fake_libs = \<lparr>
     json_Unmarshal_strings = fake_Unmarshal_strings,
     mail_ParseAddress = (\<lambda>s. if CHR ''@'' \<in> set s then None else Some ''mail: missing @''),
     regexp_MatchString = (\<lambda>p s. CHR ''@'' \<in> set s),
     bcrypt_hash = (\<lambda>pw cost. ''$2a$12$'' @ pw),
     bcrypt_CompareHashAndPassword =
       (\<lambda>h pw. if h = ''$2a$12$'' @ pw then None else Some ErrMismatchedHashAndPassword),
     hmac_Sum = (\<lambda>h k m. k @ m) \<rparr>"

definition admin_role :: Role where
  "admin_role = \<lparr> Role_ID = ''r1'', Role_Name = ''admin'', Role_Description = None,
     Role_Permissions = [CHR ''['', CHR 0x22, CHR ''*'', CHR 0x22, CHR '']''],
     Role_CreatedAt = 0, Role_UpdatedAt = 0 \<rparr>"

text \<open>
  The run: the service as cmd/server/main.go wires it (key prefix \<open>elysian\<close>), with
  access tokens of 15 minutes and refresh tokens of 7 days; Alice registers on empty
  stores at \<open>t0\<close> and gets the refresh token \<open>alice_token\<close>.
\<close>

definition jwt0 :: JWTService where
  "jwt0 = \<lparr> cfg = \<lparr> JWT_Secret = ''0123456789abcdef0123456789abcdef'',
     JWT_AccessTokenExpiry = 15 * 60 * Second,
     JWT_RefreshTokenExpiry = 7 * 24 * Hour,
     JWT_Issuer = ''elysian'' \<rparr> \<rparr>"

definition uc0 :: authUseCase where
  "uc0 = \<lparr> jwtSvc = jwt0, keyBuilder = \<lparr> kb_prefix = ''elysian'' \<rparr> \<rparr>"

definition w0 :: stores where
  "w0 = \<lparr> st_users = [], st_roles = [], st_user_roles = [], st_cache = Map.empty \<rparr>"

definition t0 :: Time where
  "t0 = 1700000000 * Second"

definition alice_req :: RegisterRequest where
  "alice_req = \<lparr> RegisterRequest_Email = ''alice@example.com'',
     RegisterRequest_Password = ''correct horse'', RegisterRequest_Name = ''Alice'' \<rparr>"

definition alice_row :: User where
  "alice_row = \<lparr> User_ID = ''u-1'', User_Email = ''alice@example.com'',
     User_PasswordHash = ''$2a$12$correct horse'', User_Name = ''Alice'',
     User_AvatarURL = None, User_IsActive = True, User_EmailVerifiedAt = None,
     User_LastLoginAt = None, User_CreatedAt = t0, User_UpdatedAt = t0,
     User_DeletedAt = None \<rparr>"

definition registered :: "(error + AuthResponse) \<times> stores" where
  "registered = Register fake_libs uc0 t0 ''u-1'' w0 alice_req"

definition alice_token :: string where
  "alice_token = AuthResponse_RefreshToken (projr (fst registered))"

text \<open>Later calls of the run: a login, and rotations of Alice's token at several times.\<close>

definition alice_login :: LoginRequest where
  "alice_login = \<lparr> LoginRequest_Email = ''alice@example.com'',
     LoginRequest_Password = ''correct horse'' \<rparr>"

definition logged_in :: "(error + AuthResponse) \<times> stores" where
  "logged_in = Login fake_libs uc0 (t0 + 10 * Second) (snd registered) alice_login"

definition wrong_password :: LoginRequest where
  "wrong_password = \<lparr> LoginRequest_Email = ''alice@example.com'',
     LoginRequest_Password = ''wrong horse'' \<rparr>"

definition unknown_email :: LoginRequest where
  "unknown_email = \<lparr> LoginRequest_Email = ''bob@example.com'',
     LoginRequest_Password = ''correct horse'' \<rparr>"

definition mallory_req :: RegisterRequest where
  "mallory_req = \<lparr> RegisterRequest_Email = ''alice@example.com'',
     RegisterRequest_Password = ''short'', RegisterRequest_Name = ''Mallory'' \<rparr>"

definition first_refresh :: "(error + AuthResponse) \<times> stores" where
  "first_refresh = RefreshToken fake_libs uc0 (t0 + 1) (snd registered) alice_token"

definition second_refresh :: "(error + AuthResponse) \<times> stores" where
  "second_refresh = RefreshToken fake_libs uc0 (t0 + 2) (snd first_refresh) alice_token"

definition later_refresh :: "(error + AuthResponse) \<times> stores" where
  "later_refresh = RefreshToken fake_libs uc0 (t0 + 5 * Second) (snd registered) alice_token"

text \<open>The same registration under a configuration whose refresh tokens live one hour.\<close>

definition uc_1h :: authUseCase where
  "uc_1h = \<lparr> jwtSvc = \<lparr> cfg = \<lparr> JWT_Secret = ''0123456789abcdef0123456789abcdef'',
       JWT_AccessTokenExpiry = 15 * 60 * Second,
       JWT_RefreshTokenExpiry = Hour,
       JWT_Issuer = ''elysian'' \<rparr> \<rparr>,
     keyBuilder = \<lparr> kb_prefix = ''elysian'' \<rparr> \<rparr>"

definition registered_1h :: "(error + AuthResponse) \<times> stores" where
  "registered_1h = Register fake_libs uc_1h t0 ''u-1'' w0 alice_req"

text \<open>A token whose header names RS256, with well-formed claims and some signature.\<close>

definition rs256_token :: string where
  "rs256_token = EncodeSegment ''RS256'' @ ''.'' @
     EncodeClaims \<lparr> Claims_UserID = ''u-1'', Claims_Email = ''alice@example.com'',
       Claims_Issuer = ''elysian'', Claims_ExpiresAt = Some 1700000900,
       Claims_NotBefore = None, Claims_IssuedAt = Some 1700000000 \<rparr> @ ''.'' @
     EncodeSegment ''0123456789abcdef0123456789abcdef''"


definition long_password_req :: RegisterRequest where
  "long_password_req = \<lparr> RegisterRequest_Email = ''alice@example.com'',
     RegisterRequest_Password = replicate 73 (CHR ''a''), RegisterRequest_Name = ''Alice'' \<rparr>"

section \<open>Notions used in the statements\<close>

text \<open>
  The characters that separate segments, fields and the words of a header; and the
  algorithm a token string names: the decoded first segment of a string of three
  segments.
\<close>

definition separator :: "char \<Rightarrow> bool" where
  "separator c = (c = CHR ''.'' \<or> c = CHR '','' \<or> c = CHR '' '')"

definition header_alg :: "string \<Rightarrow> string option" where
  "header_alg tokenString =
     (case Split tokenString (CHR ''.'') of
        [p0, p1, p2] \<Rightarrow> DecodeSegment p0
      | _ \<Rightarrow> None)"

text \<open>
  The claims as they come back from a token: the three strings have gone through
  \<open>encoding/json\<close>, the dates are unchanged.
\<close>

definition json_Claims :: "Claims \<Rightarrow> Claims" where
  "json_Claims c = c\<lparr> Claims_UserID := json_string (Claims_UserID c),
     Claims_Email := json_string (Claims_Email c),
     Claims_Issuer := json_string (Claims_Issuer c) \<rparr>"

section \<open>Properties of the permission checks\<close>

lemma permMap_fill_keeps: "permMap k = Some True \<Longrightarrow> permMap_fill perms permMap k = Some True"
  by (induction perms arbitrary: permMap) auto

lemma permMap_fill_member:
  "k \<in> set perms \<Longrightarrow> permMap_fill perms permMap k = Some True"
proof (induction perms arbitrary: permMap)
  case Nil
  then show ?case by simp
next
  case (Cons p ps)
  show ?case
  proof (cases "k = p")
    case True
    then show ?thesis by (simp add: permMap_fill_keeps)
  next
    case False
    with Cons show ?thesis by simp
  qed
qed

lemma HasPermission_loop_wildcard:
  "''*'' \<in> set perms \<Longrightarrow> HasPermission_loop perms permission"
  by (induction perms) auto

text \<open>
  C7. A role whose permissions contain the wildcard \<open>"*"\<close> passes \<open>HasPermission\<close> for
  every permission string and \<open>HasAllPermissions\<close> for every list of required
  permissions, the empty list included; and for every role, \<open>HasAllPermissions\<close> of the
  empty list is true.
\<close>

theorem wildcard_grants_everything:
  "(''*'' \<in> set (GetPermissions L r) \<longrightarrow>
      HasPermission L r permission \<and> HasAllPermissions L r permissions \<and>
      HasAllPermissions L r [])
   \<and> HasAllPermissions L r' []"
proof -
  have "HasAllPermissions L r' []"
    by (simp add: HasAllPermissions_def Let_def)
  moreover have "HasPermission L r permission \<and> HasAllPermissions L r ps"
    if "''*'' \<in> set (GetPermissions L r)" for ps
  proof -
    from that have "permMap_get (permMap_fill (GetPermissions L r) Map.empty) ''*''"
      by (simp add: permMap_get_def permMap_fill_member)
    then have "HasAllPermissions L r ps"
      by (simp add: HasAllPermissions_def Let_def)
    moreover from that have "HasPermission L r permission"
      by (simp add: HasPermission_def HasPermission_loop_wildcard)
    ultimately show ?thesis by simp
  qed
  ultimately show ?thesis by blast
qed

text \<open>
  At a concrete input: the role \<open>admin\<close> with the permissions \<open>["*"]\<close>, a permission
  and a list of permissions it never names.
\<close>

theorem wildcard_grants_everything_witness:
  "''*'' \<in> set (GetPermissions fake_libs admin_role) \<and>
   HasPermission fake_libs admin_role ''workflow:delete'' \<and>
   HasAllPermissions fake_libs admin_role [''workflow:read'', ''never:seen''] \<and>
   HasAllPermissions fake_libs admin_role []"
proof -
  have h: "''*'' \<in> set (GetPermissions fake_libs admin_role)"
    by (simp add: GetPermissions_def fake_libs_def fake_Unmarshal_strings_def admin_role_def)
  show ?thesis
    using h wildcard_grants_everything
      [of fake_libs admin_role "''workflow:delete''" "[''workflow:read'', ''never:seen'']"]
    by blast
qed

section \<open>The encoding of tokens is injective\<close>

subsection \<open>Segments and numbers\<close>

lemma hexval_hexdigit: "n < 16 \<Longrightarrow> hexval (hexdigit n) = Some n"
  by (auto simp: hexval_def hexdigit_def Let_def)

lemma Decode_Encode: "DecodeSegment (EncodeSegment s) = Some s"
proof (induction s)
  case Nil show ?case by simp
next
  case (Cons c cs)
  have "(of_char c :: nat) < 256" by simp
  then have d: "(of_char c :: nat) div 16 < 16" by arith
  have m: "(of_char c :: nat) mod 16 < 16" by simp
  have "char_of (16 * ((of_char c :: nat) div 16) + of_char c mod 16) = c"
    by simp
  with Cons d m show ?case by (simp add: hexval_hexdigit)
qed

lemma Encode_alphabet: "c \<in> set (EncodeSegment s) \<Longrightarrow> hexval c \<noteq> None"
proof (induction s)
  case Nil then show ?case by simp
next
  case (Cons a as)
  have "(of_char a :: nat) < 256" by simp
  then have d: "(of_char a :: nat) div 16 < 16" by arith
  have m: "(of_char a :: nat) mod 16 < 16" by simp
  from Cons d m show ?case by (auto simp: hexval_hexdigit)
qed

lemma FormatNat_digits: "list_all is_digit (FormatNat n)"
proof (induction n rule: FormatNat.induct)
  case (1 n)
  show ?case
  proof (cases "n < 10")
    case True
    then show ?thesis by (subst FormatNat.simps) (simp add: is_digit_def)
  next
    case False
    have "n mod 10 < 10" by simp
    then have "is_digit (char_of (48 + n mod 10))" unfolding is_digit_def by simp
    with False 1 show ?thesis by (subst FormatNat.simps) simp
  qed
qed

lemma FormatNat_nonempty: "FormatNat n \<noteq> []"
  by (subst FormatNat.simps) simp

lemma FormatNat_value: "foldl (\<lambda>a c. 10 * a + (of_char c - 48)) 0 (FormatNat n) = n"
proof (induction n rule: FormatNat.induct)
  case (1 n)
  show ?case
  proof (cases "n < 10")
    case True
    then show ?thesis by (subst FormatNat.simps) simp
  next
    case False
    have "n mod 10 < 10" by simp
    with False 1 show ?thesis by (subst FormatNat.simps) simp
  qed
qed

lemma ParseNat_FormatNat: "ParseNat (FormatNat n) = Some n"
  by (simp add: ParseNat_def FormatNat_digits FormatNat_nonempty FormatNat_value)

lemma FormatNat_hd: "FormatNat n = c # cs \<Longrightarrow> c \<noteq> CHR ''-''"
  using FormatNat_digits [of n] by (auto simp: is_digit_def)

lemma ParseInt_FormatInt: "ParseInt (FormatInt i) = Some i"
proof (cases "i < 0")
  case True
  then show ?thesis by (simp add: ParseInt_def FormatInt_def ParseNat_FormatNat)
next
  case False
  obtain c cs where f: "FormatNat (nat i) = c # cs"
    using FormatNat_nonempty [of "nat i"] by (cases "FormatNat (nat i)") auto
  from FormatNat_hd [OF f] have "c \<noteq> CHR ''-''" .
  moreover have "ParseNat (c # cs) = Some (nat i)" using ParseNat_FormatNat [of "nat i"] f by simp
  ultimately show ?thesis using False f by (simp add: ParseInt_def FormatInt_def)
qed

lemma FormatInt_nonempty: "FormatInt i \<noteq> []"
  by (simp add: FormatInt_def FormatNat_nonempty)

lemma FormatInt_alphabet: "c \<in> set (FormatInt i) \<Longrightarrow> c = CHR ''-'' \<or> is_digit c"
  using FormatNat_digits by (auto simp: FormatInt_def list_all_iff split: if_splits)

lemma Decode_EncodeNumericDate: "DecodeNumericDate (EncodeNumericDate d) = Some d"
  by (cases d) (simp_all add: DecodeNumericDate_def EncodeNumericDate_def FormatInt_nonempty ParseInt_FormatInt)

subsection \<open>No separator inside a segment\<close>

lemma separator_not_hex: "separator c \<Longrightarrow> hexval c = None"
  by (auto simp: separator_def hexval_def)

lemma separator_not_digit: "separator c \<Longrightarrow> \<not> is_digit c \<and> c \<noteq> CHR ''-''"
  by (auto simp: separator_def is_digit_def)

lemma EncodeSegment_no_separator: "separator c \<Longrightarrow> c \<notin> set (EncodeSegment s)"
  using Encode_alphabet separator_not_hex by blast

lemma EncodeNumericDate_no_separator: "separator c \<Longrightarrow> c \<notin> set (EncodeNumericDate d)"
  using FormatInt_alphabet separator_not_digit
  by (cases d) (auto simp: EncodeNumericDate_def)

lemma Split_no_sep: "sep \<notin> set p \<Longrightarrow> Split p sep = [p]"
  by (induction p) auto

lemma Split_append: "sep \<notin> set p \<Longrightarrow> Split (p @ sep # r) sep = p # Split r sep"
  by (induction p) auto

subsection \<open>Strings through JSON\<close>

text \<open>
  A string of valid UTF-8 goes through \<open>encoding/json\<close> unchanged; any string comes out
  as valid UTF-8, so that a second passage changes nothing.
\<close>

lemma Valid_json_copy: "Valid_from k s \<Longrightarrow> json_copy k s = s"
  by (induction k s rule: json_copy.induct) (auto split: option.splits)

lemma ValidString_json_string: "ValidString s \<Longrightarrow> json_string s = s"
  by (simp add: ValidString_def json_string_def Valid_json_copy)

lemma conts_take: "conts k bs \<Longrightarrow> json_copy k bs = take k bs @ json_copy 0 (drop k bs)"
  by (induction k bs rule: conts.induct) auto

lemma second_ok_conts: "second_ok lo hi n bs \<Longrightarrow> 128 \<le> lo \<Longrightarrow> hi \<le> 191 \<Longrightarrow> conts (Suc n) bs"
  by (cases bs) (auto simp: second_ok_def byte_in_def)

lemma Decode_conts: "DecodeRune_size (b # bs) = Some n \<Longrightarrow> 0 < n \<and> conts (n - 1) bs"
  unfolding DecodeRune_size_def Let_def
  by (auto split: if_splits dest!: second_ok_conts simp: numeral_2_eq_2 numeral_3_eq_3)

lemma conts_prefix: "conts n bs \<Longrightarrow> conts n (take n bs @ r)"
  by (induction n bs rule: conts.induct) auto

lemma second_ok_prefix: "second_ok lo hi n bs \<Longrightarrow> second_ok lo hi n (take (Suc n) bs @ r)"
  by (cases bs) (auto simp: second_ok_def conts_prefix)

lemma Decode_take:
  "DecodeRune_size (b # bs) = Some n \<Longrightarrow> DecodeRune_size (b # take (n - 1) bs @ r) = Some n"
  unfolding DecodeRune_size_def Let_def
  by (auto split: if_splits dest: second_ok_prefix [where r = r]
      simp: numeral_2_eq_2 numeral_3_eq_3)

lemma Decode_replacement:
  "DecodeRune_size (CHR 0xEF # CHR 0xBF # CHR 0xBD # r) = Some 3"
  by (simp add: DecodeRune_size_def Let_def second_ok_def byte_in_def)

lemma json_copy_Valid: "conts k s \<Longrightarrow> Valid_from k (json_copy k s)"
proof (induction k s rule: json_copy.induct)
  case (1 k)
  then show ?case by (cases k) auto
next
  case (2 k b bs)
  then show ?case by simp
next
  case (3 b bs)
  show ?case
  proof (cases "DecodeRune_size (b # bs)")
    case None
    with 3 show ?thesis by (simp add: Decode_replacement numeral_2_eq_2)
  next
    case (Some n)
    from Decode_conts [OF Some] have c: "conts (n - 1) bs" by simp
    from conts_take [OF c] Decode_take [OF Some]
    have "DecodeRune_size (b # json_copy (n - 1) bs) = Some n" by simp
    with 3(2) [OF Some c] Some show ?thesis by simp
  qed
qed

lemma ValidString_json: "ValidString (json_string s)"
  by (simp add: ValidString_def json_string_def json_copy_Valid)

lemma json_string_idem: "json_string (json_string s) = json_string s"
  by (rule ValidString_json_string) (rule ValidString_json)

lemma json_copy_ascii:
  "list_all (\<lambda>c. (of_char c :: nat) < 128) (json_copy k s) \<Longrightarrow> json_copy k s = s"
  by (induction k s rule: json_copy.induct) (auto split: option.splits)

lemma ascii_json_copy:
  "list_all (\<lambda>c. (of_char c :: nat) < 128) s \<Longrightarrow> json_copy 0 s = s"
  by (induction s) (simp_all add: DecodeRune_size_def)




subsection \<open>Claims and whole tokens\<close>

lemma DecodeClaims_EncodeClaims: "DecodeClaims (EncodeClaims c) = Some (json_Claims c)"
proof -
  have sep: "separator (CHR '','')" by (simp add: separator_def)
  note ns = EncodeSegment_no_separator [OF sep] EncodeNumericDate_no_separator [OF sep]
  have "Split (EncodeClaims c) (CHR '','') =
      [EncodeSegment (json_string (Claims_UserID c)), EncodeSegment (json_string (Claims_Email c)),
       EncodeSegment (json_string (Claims_Issuer c)), EncodeNumericDate (Claims_ExpiresAt c),
       EncodeNumericDate (Claims_NotBefore c), EncodeNumericDate (Claims_IssuedAt c)]"
    by (simp add: EncodeClaims_def Split_append Split_no_sep ns)
  then show ?thesis
    by (simp add: DecodeClaims_def Decode_Encode Decode_EncodeNumericDate json_string_idem
        json_Claims_def)
qed

lemma EncodeClaims_no_separator:
  "c = CHR ''.'' \<or> c = CHR '' '' \<Longrightarrow> c \<notin> set (EncodeClaims cl)"
proof -
  assume "c = CHR ''.'' \<or> c = CHR '' ''"
  then have s: "separator c" and n: "c \<noteq> CHR '',''" by (auto simp: separator_def)
  show ?thesis
    using EncodeSegment_no_separator [OF s] EncodeNumericDate_no_separator [OF s] n
    by (simp add: EncodeClaims_def)
qed

lemma Split_token:
  "Split (EncodeSegment a @ ''.'' @ EncodeClaims c @ ''.'' @ EncodeSegment sg) (CHR ''.'') =
     [EncodeSegment a, EncodeClaims c, EncodeSegment sg]"
proof -
  have sep: "separator (CHR ''.'')" by (simp add: separator_def)
  show ?thesis
    using EncodeSegment_no_separator [OF sep] EncodeClaims_no_separator [of "CHR ''.''"]
    by (simp add: Split_append Split_no_sep)
qed



lemma GetSigningMethod_Some: "GetSigningMethod a = Some m \<Longrightarrow> Alg m = a"
  unfolding GetSigningMethod_def by (auto simp: find_Some_iff)

lemma Alg_ascii: "list_all (\<lambda>c. (of_char c :: nat) < 128) (Alg m)"
proof -
  have "list_all (\<lambda>c. (of_char c :: nat) < 128) (hash_bits h)" for h
    by (cases h) simp_all
  then show ?thesis by (cases m) simp_all
qed

lemma GetSigningMethod_json: "GetSigningMethod (json_string a) = GetSigningMethod a"
proof -
  have "(Alg m = json_string a) = (Alg m = a)" for m
  proof
    assume e: "Alg m = json_string a"
    with Alg_ascii [of m] have "list_all (\<lambda>c. (of_char c :: nat) < 128) (json_copy 0 a)"
      by (simp add: json_string_def)
    then have "json_copy 0 a = a" by (rule json_copy_ascii)
    then have "json_string a = a" by (simp add: json_string_def)
    with e show "Alg m = a" by simp
  next
    assume e: "Alg m = a"
    from ascii_json_copy [OF Alg_ascii [of m]] have "json_string (Alg m) = Alg m"
      by (simp add: json_string_def)
    with e show "Alg m = json_string a" by simp
  qed
  then show ?thesis by (simp add: GetSigningMethod_def)
qed

lemma SignedString_eq:
  "SignedString L (SigningMethodHMAC h) c k =
     Inr (EncodeSegment (Alg (SigningMethodHMAC h)) @ ''.'' @ EncodeClaims c @ ''.'' @
          EncodeSegment (hmac_Sum L h k (SigningString (SigningMethodHMAC h) c)))"
  by (simp add: SignedString_def Sign_def Let_def SigningString_def)

lemma SignedString_claims_inject:
  assumes "SignedString L (SigningMethodHMAC h) c k = Inr tok"
    and "SignedString L' (SigningMethodHMAC h') c' k' = Inr tok"
  shows "json_Claims c = json_Claims c'"
proof -
  from assms have "Split (EncodeSegment (Alg (SigningMethodHMAC h)) @ ''.'' @ EncodeClaims c @
      ''.'' @ EncodeSegment (hmac_Sum L h k (SigningString (SigningMethodHMAC h) c))) (CHR ''.'')
    = Split (EncodeSegment (Alg (SigningMethodHMAC h')) @ ''.'' @ EncodeClaims c' @
      ''.'' @ EncodeSegment (hmac_Sum L' h' k' (SigningString (SigningMethodHMAC h') c'))) (CHR ''.'')"
    by (simp only: SignedString_eq sum.inject)
  then have "EncodeClaims c = EncodeClaims c'"
    by (simp only: Split_token list.inject)
  then have "DecodeClaims (EncodeClaims c) = DecodeClaims (EncodeClaims c')" by simp
  then show ?thesis by (simp only: DecodeClaims_EncodeClaims option.inject)
qed



section \<open>Issuing and validating tokens\<close>




lemma GenerateAccessToken_Inr: "\<exists>tok. GenerateAccessToken L s now userID email = Inr tok"
  by (simp add: GenerateAccessToken_def SignedString_def Sign_def Let_def)

lemma GenerateRefreshToken_Inr: "\<exists>tok. GenerateRefreshToken L s now userID = Inr tok"
  by (simp add: GenerateRefreshToken_def SignedString_def Sign_def Let_def)

text \<open>
  A refresh token is a function of the user, the configuration and the clock's second:
  two tokens that are the same string were issued in the same second, and within one
  second the service issues the same string again.
\<close>

lemma GenerateRefreshToken_iat:
  assumes "GenerateRefreshToken L s now userID = Inr tok"
    and "GenerateRefreshToken L' s' now' userID' = Inr tok"
  shows "NewNumericDate now = NewNumericDate now'"
proof -
  from SignedString_claims_inject [OF assms [unfolded GenerateRefreshToken_def Let_def]]
  have "Claims_IssuedAt (json_Claims \<lparr>
        Claims_UserID = userID, Claims_Email = [], Claims_Issuer = JWT_Issuer (cfg s),
        Claims_ExpiresAt = Some (NewNumericDate (now + JWT_RefreshTokenExpiry (cfg s))),
        Claims_NotBefore = None, Claims_IssuedAt = Some (NewNumericDate now) \<rparr>) =
      Claims_IssuedAt (json_Claims \<lparr>
        Claims_UserID = userID', Claims_Email = [], Claims_Issuer = JWT_Issuer (cfg s'),
        Claims_ExpiresAt = Some (NewNumericDate (now' + JWT_RefreshTokenExpiry (cfg s'))),
        Claims_NotBefore = None, Claims_IssuedAt = Some (NewNumericDate now') \<rparr>)"
    by simp
  then show ?thesis by (simp add: json_Claims_def)
qed

lemma GenerateRefreshToken_same_second:
  assumes "NewNumericDate now = NewNumericDate now'"
    and "NewNumericDate (now + JWT_RefreshTokenExpiry (cfg s)) =
         NewNumericDate (now' + JWT_RefreshTokenExpiry (cfg s))"
  shows "GenerateRefreshToken L s now userID = GenerateRefreshToken L s now' userID"
  using assms by (simp add: GenerateRefreshToken_def)




text \<open>
  C9. A token string whose header names an algorithm other than HS256, HS384 and HS512
  is rejected by \<open>ValidateToken\<close> with an error: the token is malformed, or its
  algorithm is not registered, or the key function refuses the method.  Each of these
  errors is returned before the signature is verified and before the claims are
  validated (the library decodes the signature before or after it asks for the key,
  depending on its version; the statement holds for both), and no claims are returned.
\<close>

theorem non_hmac_token_rejected:
  assumes "header_alg tokenString = Some alg"
    and "alg \<noteq> ''HS256''" and "alg \<noteq> ''HS384''" and "alg \<noteq> ''HS512''"
  shows "\<exists>e. ValidateToken L s now tokenString = Inl (ErrInvalidToken e) \<and>
     (e = ErrTokenMalformed \<or>
      e = ErrTokenUnverifiable ''signing method (alg) is unavailable'' \<or>
      e = ErrTokenUnverifiable (''unexpected signing method: '' @ alg))"
proof -
  from assms(1) obtain p0 p1 p2 where sp: "Split tokenString (CHR ''.'') = [p0, p1, p2]"
    and d: "DecodeSegment p0 = Some alg"
    by (auto simp: header_alg_def split: list.splits)
  have kf: "ValidateToken_keyFunc s m = Inl (''unexpected signing method: '' @ alg)"
    if "GetSigningMethod alg = Some m" for m
  proof -
    from that have a: "Alg m = alg" by (rule GetSigningMethod_Some)
    with assms(2-4) have "\<And>h. m \<noteq> SigningMethodHMAC h"
    proof -
      fix h show "m \<noteq> SigningMethodHMAC h" using a assms(2-4) by (cases h) auto
    qed
    then show ?thesis using a by (cases m) (auto simp: ValidateToken_keyFunc_def)
  qed
  show ?thesis
    unfolding ValidateToken_def ParseWithClaims_def sp
    by (auto simp: d kf GetSigningMethod_json split: option.splits)
qed

text \<open>At a concrete input: a token with the header RS256.\<close>

theorem non_hmac_token_rejected_witness:
  "header_alg rs256_token = Some ''RS256'' \<and>
   ValidateToken fake_libs jwt0 t0 rs256_token =
     Inl (ErrInvalidToken (ErrTokenUnverifiable ''unexpected signing method: RS256''))"
proof -
  have h: "header_alg rs256_token = Some ''RS256''"
    unfolding rs256_token_def header_alg_def
    by (simp only: Split_token list.case Decode_Encode)
  have d: "DecodeClaims (EncodeClaims c) \<noteq> None" for c
    by (simp add: DecodeClaims_EncodeClaims)
  from non_hmac_token_rejected [OF h, of fake_libs jwt0 t0]
  obtain e where v: "ValidateToken fake_libs jwt0 t0 rs256_token = Inl (ErrInvalidToken e)"
    and e: "e = ErrTokenMalformed \<or>
      e = ErrTokenUnverifiable ''signing method (alg) is unavailable'' \<or>
      e = ErrTokenUnverifiable (''unexpected signing method: '' @ ''RS256'')"
    by auto
  have "ValidateToken fake_libs jwt0 t0 rs256_token =
     Inl (ErrInvalidToken (ErrTokenUnverifiable ''unexpected signing method: RS256''))"
    unfolding ValidateToken_def ParseWithClaims_def rs256_token_def
    by (simp only: Split_token list.case Decode_Encode DecodeClaims_EncodeClaims option.case
          GetSigningMethod_json)
       (simp add: GetSigningMethod_def signingMethods_def ValidateToken_keyFunc_def)
  with h v show ?thesis by simp
qed

section \<open>The stores and the operations\<close>

lemma refresh_key_inject:
  "CacheKeyBuilder_RefreshToken b t = CacheKeyBuilder_RefreshToken b t' \<longleftrightarrow> t = t'"
  by (simp add: CacheKeyBuilder_RefreshToken_def)

lemma logout_key_differs:
  "''refresh_token:'' @ t \<noteq> CacheKeyBuilder_RefreshToken b t"
proof
  assume "''refresh_token:'' @ t = CacheKeyBuilder_RefreshToken b t"
  then have "length (''refresh_token:'' @ t) = length (CacheKeyBuilder_RefreshToken b t)"
    by simp
  then show False by (simp add: CacheKeyBuilder_RefreshToken_def)
qed

lemma Logout_keeps_session:
  "st_cache (snd (Logout uc w t)) (CacheKeyBuilder_RefreshToken b t) =
   st_cache w (CacheKeyBuilder_RefreshToken b t)"
  using logout_key_differs [of t b] by (simp add: Logout_def Let_def)

lemma Logout_users: "st_users (snd (Logout uc w t)) = st_users w"
  by (simp add: Logout_def Let_def)

lemma RefreshToken_after_Logout:
  "fst (RefreshToken L uc now (snd (Logout uc w t)) t) = fst (RefreshToken L uc now w t)"
proof -
  let ?w = "snd (Logout uc w t)"
  have c: "RedisCache_Get (st_cache ?w) now (CacheKeyBuilder_RefreshToken (keyBuilder uc) t) =
           RedisCache_Get (st_cache w) now (CacheKeyBuilder_RefreshToken (keyBuilder uc) t)"
    by (simp add: RedisCache_Get_def Logout_keeps_session)
  have f: "FindByID ?w = FindByID w"
    by (rule ext) (simp add: FindByID_def Logout_users)
  show ?thesis
    unfolding RefreshToken_def Let_def c f
    by (simp split: sum.splits)
qed

lemma RefreshToken_success:
  assumes "RedisCache_Get (st_cache w) now (CacheKeyBuilder_RefreshToken (keyBuilder uc) t) = Inr userID"
    and "FindByID w userID = Inr user"
    and "GenerateAccessToken L (jwtSvc uc) now (User_ID user) (User_Email user) = Inr atok"
    and "GenerateRefreshToken L (jwtSvc uc) now (User_ID user) = Inr rtok"
  shows "RefreshToken L uc now w t =
     (Inr \<lparr> AuthResponse_AccessToken = atok, AuthResponse_RefreshToken = rtok,
             AuthResponse_User = user\<lparr> User_PasswordHash := [] \<rparr> \<rparr>,
      w\<lparr> st_cache := RedisCache_Set
            (RedisCache_Delete (st_cache w) [CacheKeyBuilder_RefreshToken (keyBuilder uc) t])
            now (CacheKeyBuilder_RefreshToken (keyBuilder uc) rtok) (User_ID user) (7 * Hour * 24) \<rparr>)"
  using assms by (simp add: RefreshToken_def Let_def)

lemma RefreshToken_Inr_cases:
  assumes "RefreshToken L uc now w t = (Inr res, w')"
  shows "\<exists>user. w' = w\<lparr> st_cache := RedisCache_Set
            (RedisCache_Delete (st_cache w) [CacheKeyBuilder_RefreshToken (keyBuilder uc) t])
            now (CacheKeyBuilder_RefreshToken (keyBuilder uc) (AuthResponse_RefreshToken res))
            (User_ID user) (7 * Hour * 24) \<rparr> \<and>
          AuthResponse_User res = user\<lparr> User_PasswordHash := [] \<rparr>"
  using assms
  by (auto simp: RefreshToken_def Let_def split: sum.splits)

lemma Register_success:
  assumes "mail_ParseAddress L (RegisterRequest_Email req) = None"
    and "regexp_MatchString L emailRegex (RegisterRequest_Email req)"
    and "\<not> ExistsByEmail w (RegisterRequest_Email req)"
    and "8 \<le> length (RegisterRequest_Password req)"
    and "length (RegisterRequest_Password req) \<le> 72"
    and "hashedPass = bcrypt_hash L (RegisterRequest_Password req) 12"
    and "GenerateAccessToken L (jwtSvc uc) now uuid (RegisterRequest_Email req) = Inr atok"
    and "GenerateRefreshToken L (jwtSvc uc) now uuid = Inr rtok"
  shows "Register L uc now uuid w req =
    (Inr \<lparr> AuthResponse_AccessToken = atok, AuthResponse_RefreshToken = rtok,
            AuthResponse_User = \<lparr> User_ID = uuid, User_Email = RegisterRequest_Email req,
              User_PasswordHash = hashedPass, User_Name = RegisterRequest_Name req,
              User_AvatarURL = None, User_IsActive = True, User_EmailVerifiedAt = None,
              User_LastLoginAt = None, User_CreatedAt = now, User_UpdatedAt = now,
              User_DeletedAt = None \<rparr> \<rparr>,
     w\<lparr> st_users := st_users w @ [\<lparr> User_ID = uuid, User_Email = RegisterRequest_Email req,
              User_PasswordHash = hashedPass, User_Name = RegisterRequest_Name req,
              User_AvatarURL = None, User_IsActive = True, User_EmailVerifiedAt = None,
              User_LastLoginAt = None, User_CreatedAt = now, User_UpdatedAt = now,
              User_DeletedAt = None \<rparr>],
        st_cache := RedisCache_Set (st_cache w) now
              (CacheKeyBuilder_RefreshToken (keyBuilder uc) rtok) uuid (7 * Hour * 24) \<rparr>)"
proof -
  from assms(4) have ne: "RegisterRequest_Password req \<noteq> []" by auto
  have h: "HashPassword L (RegisterRequest_Password req) = Inr hashedPass"
    using ne assms(5,6) by (simp add: HashPassword_def GenerateFromPassword_def)
  show ?thesis
    using assms(1-4,7,8)
    by (simp add: Register_def h Create_def Let_def)
qed

lemma Register_conflict:
  assumes "mail_ParseAddress L (RegisterRequest_Email req) = None"
    and "regexp_MatchString L emailRegex (RegisterRequest_Email req)"
    and "ExistsByEmail w (RegisterRequest_Email req)"
  shows "Register L uc now uuid w req = (Inl ErrEmailAlreadyRegistered, w)"
  using assms by (simp add: Register_def)

lemma Login_success:
  assumes "FindByEmail w (LoginRequest_Email req) = Inr user"
    and "bcrypt_CompareHashAndPassword L (User_PasswordHash user) (LoginRequest_Password req) = None"
    and "GenerateAccessToken L (jwtSvc uc) now (User_ID user) (User_Email user) = Inr atok"
    and "GenerateRefreshToken L (jwtSvc uc) now (User_ID user) = Inr rtok"
  shows "Login L uc now w req =
    (Inr \<lparr> AuthResponse_AccessToken = atok, AuthResponse_RefreshToken = rtok,
            AuthResponse_User = user\<lparr> User_LastLoginAt := Some now, User_PasswordHash := [] \<rparr> \<rparr>,
     w\<lparr> st_cache := RedisCache_Set (st_cache w) now
              (CacheKeyBuilder_RefreshToken (keyBuilder uc) rtok) (User_ID user) (7 * Hour * 24),
        st_users := map (\<lambda>u. if User_ID u = User_ID user
                          then user\<lparr> User_LastLoginAt := Some now \<rparr> else u) (st_users w) \<rparr>)"
proof -
  from assms(1) have "user \<in> set (st_users w)"
    by (auto simp: FindByEmail_def find_Some_iff split: option.splits)
  then have ex: "list_ex (\<lambda>u. User_ID u = User_ID user) (st_users w)"
    by (auto simp: list_ex_iff)
  show ?thesis
    using assms ex by (simp add: Login_def ComparePassword_def Update_def Let_def)
qed

lemma Register_Inr_cache:
  assumes "Register L uc now uuid w req = (Inr res, w')"
  shows "st_cache w' (CacheKeyBuilder_RefreshToken (keyBuilder uc) (AuthResponse_RefreshToken res)) =
     Some \<lparr> entry_data = User_ID (AuthResponse_User res), entry_ttl = 7 * Hour * 24,
            entry_set_at = now \<rparr>"
  using assms
  by (auto simp: Register_def Let_def Create_def RedisCache_Set_def
      split: option.splits if_splits sum.splits)

lemma Login_Inr_cache:
  assumes "Login L uc now w req = (Inr res, w')"
  shows "st_cache w' (CacheKeyBuilder_RefreshToken (keyBuilder uc) (AuthResponse_RefreshToken res)) =
     Some \<lparr> entry_data = User_ID (AuthResponse_User res), entry_ttl = 7 * Hour * 24,
            entry_set_at = now \<rparr>"
  using assms
  by (auto simp: Login_def Let_def Update_def RedisCache_Set_def
      split: option.splits if_splits sum.splits)

lemma RefreshToken_Inr_cache:
  assumes "RefreshToken L uc now w t = (Inr res, w')"
  shows "st_cache w' (CacheKeyBuilder_RefreshToken (keyBuilder uc) (AuthResponse_RefreshToken res)) =
     Some \<lparr> entry_data = User_ID (AuthResponse_User res), entry_ttl = 7 * Hour * 24,
            entry_set_at = now \<rparr>"
  using assms
  by (auto simp: RefreshToken_def Let_def RedisCache_Set_def
      split: option.splits if_splits sum.splits)

lemma Contains_already_registered:
  "Contains (Error_msg ErrEmailAlreadyRegistered) ''already registered''"
  by simp


subsection \<open>The concrete run\<close>

lemma registered_eq:
  "\<exists>atok rtok. registered =
    (Inr \<lparr> AuthResponse_AccessToken = atok, AuthResponse_RefreshToken = rtok,
            AuthResponse_User = alice_row \<rparr>,
     \<lparr> st_users = [alice_row], st_roles = [], st_user_roles = [],
       st_cache = [CacheKeyBuilder_RefreshToken (keyBuilder uc0) rtok \<mapsto>
          \<lparr> entry_data = ''u-1'', entry_ttl = 7 * Hour * 24, entry_set_at = t0 \<rparr>] \<rparr>) \<and>
    GenerateRefreshToken fake_libs jwt0 t0 ''u-1'' = Inr rtok"
proof -
  obtain atok where a: "GenerateAccessToken fake_libs (jwtSvc uc0) t0 ''u-1''
      (RegisterRequest_Email alice_req) = Inr atok"
    using GenerateAccessToken_Inr by blast
  obtain rtok where r: "GenerateRefreshToken fake_libs (jwtSvc uc0) t0 ''u-1'' = Inr rtok"
    using GenerateRefreshToken_Inr by blast
  have "registered = Register fake_libs uc0 t0 ''u-1'' w0 alice_req"
    by (simp add: registered_def)
  also have "\<dots> = (Inr \<lparr> AuthResponse_AccessToken = atok, AuthResponse_RefreshToken = rtok,
            AuthResponse_User = alice_row \<rparr>,
     \<lparr> st_users = [alice_row], st_roles = [], st_user_roles = [],
       st_cache = [CacheKeyBuilder_RefreshToken (keyBuilder uc0) rtok \<mapsto>
          \<lparr> entry_data = ''u-1'', entry_ttl = 7 * Hour * 24, entry_set_at = t0 \<rparr>] \<rparr>)"
    by (subst Register_success [where hashedPass = "''$2a$12$correct horse''", OF _ _ _ _ _ _ a r])
       (simp_all add: alice_req_def fake_libs_def w0_def ExistsByEmail_def alice_row_def
          RedisCache_Set_def)
  finally show ?thesis using r by (auto simp: uc0_def)
qed

lemma registered_facts:
  "\<exists>atok rtok. fst registered = Inr \<lparr> AuthResponse_AccessToken = atok,
       AuthResponse_RefreshToken = rtok, AuthResponse_User = alice_row \<rparr> \<and>
     alice_token = rtok \<and>
     GenerateRefreshToken fake_libs jwt0 t0 ''u-1'' = Inr rtok \<and>
     st_users (snd registered) = [alice_row] \<and>
     st_cache (snd registered) = [CacheKeyBuilder_RefreshToken (keyBuilder uc0) rtok \<mapsto>
          \<lparr> entry_data = ''u-1'', entry_ttl = 7 * Hour * 24, entry_set_at = t0 \<rparr>]"
proof -
  from registered_eq obtain atok rtok where
    reg: "registered =
    (Inr \<lparr> AuthResponse_AccessToken = atok, AuthResponse_RefreshToken = rtok,
            AuthResponse_User = alice_row \<rparr>,
     \<lparr> st_users = [alice_row], st_roles = [], st_user_roles = [],
       st_cache = [CacheKeyBuilder_RefreshToken (keyBuilder uc0) rtok \<mapsto>
          \<lparr> entry_data = ''u-1'', entry_ttl = 7 * Hour * 24, entry_set_at = t0 \<rparr>] \<rparr>)"
    and g: "GenerateRefreshToken fake_libs jwt0 t0 ''u-1'' = Inr rtok"
    by blast
  show ?thesis using g by (simp add: reg alice_token_def)
qed

lemma FindByID_alice: "st_users w = [alice_row] \<Longrightarrow> FindByID w ''u-1'' = Inr alice_row"
  by (simp add: FindByID_def alice_row_def)

lemma same_second_token:
  "GenerateRefreshToken fake_libs jwt0 (t0 + 1) ''u-1'' = GenerateRefreshToken fake_libs jwt0 t0 ''u-1''"
  by (rule GenerateRefreshToken_same_second)
     (simp_all add: NewNumericDate_def t0_def Second_def Hour_def jwt0_def)

section \<open>Sessions\<close>

text \<open>
  C1. The claim: after \<open>Logout(t)\<close>, \<open>RefreshToken(t)\<close> fails because no session entry for
  \<open>t\<close> remains.  The code deletes the key \<open>refresh_token:t\<close>, while the entry is under
  \<open>prefix:refresh_token:t\<close>: in the run, Alice logs out with her token, the logout
  reports no error, and a refresh with the same token one minute later still succeeds.
\<close>

theorem logout_leaves_session_live:
  "\<not> isl (fst registered) \<and>
   fst (Logout uc0 (snd registered) alice_token) = None \<and>
   \<not> isl (fst (RefreshToken fake_libs uc0 (t0 + 60 * Second)
                 (snd (Logout uc0 (snd registered) alice_token)) alice_token))"
proof -
  from registered_eq obtain atok rtok where
    reg: "registered =
    (Inr \<lparr> AuthResponse_AccessToken = atok, AuthResponse_RefreshToken = rtok,
            AuthResponse_User = alice_row \<rparr>,
     \<lparr> st_users = [alice_row], st_roles = [], st_user_roles = [],
       st_cache = [CacheKeyBuilder_RefreshToken (keyBuilder uc0) rtok \<mapsto>
          \<lparr> entry_data = ''u-1'', entry_ttl = 7 * Hour * 24, entry_set_at = t0 \<rparr>] \<rparr>)"
    by blast
  have tok: "alice_token = rtok" by (simp add: alice_token_def reg)
  obtain a2 where a2: "GenerateAccessToken fake_libs (jwtSvc uc0) (t0 + 60 * Second)
      (User_ID alice_row) (User_Email alice_row) = Inr a2"
    using GenerateAccessToken_Inr by blast
  obtain r2 where r2: "GenerateRefreshToken fake_libs (jwtSvc uc0) (t0 + 60 * Second)
      (User_ID alice_row) = Inr r2"
    using GenerateRefreshToken_Inr by blast
  have g: "RedisCache_Get (st_cache (snd registered)) (t0 + 60 * Second)
      (CacheKeyBuilder_RefreshToken (keyBuilder uc0) rtok) = Inr ''u-1''"
    by (simp add: reg RedisCache_Get_def entry_live_def Hour_def Second_def)
  have f: "FindByID (snd registered) ''u-1'' = Inr alice_row"
    by (simp add: reg FindByID_def alice_row_def)
  have "\<not> isl (fst (RefreshToken fake_libs uc0 (t0 + 60 * Second) (snd registered) rtok))"
    by (simp add: RefreshToken_success [OF g f a2 r2])
  then have r: "\<not> isl (fst (RefreshToken fake_libs uc0 (t0 + 60 * Second)
                 (snd (Logout uc0 (snd registered) alice_token)) alice_token))"
    by (simp add: tok RefreshToken_after_Logout)
  have s: "\<not> isl (fst registered)" by (simp add: reg)
  have l: "fst (Logout uc0 (snd registered) alice_token) = None"
    by (simp add: Logout_def Let_def)
  from s l r show ?thesis by blast
qed

text \<open>
  C2. The claim: the session entry of a newly issued refresh token has the configured
  refresh-TTL.  As amended: after every successful \<open>Register\<close>, \<open>Login\<close> or
  \<open>RefreshToken\<close>, the entry of the new refresh token has the TTL \<open>7*time.Hour*24\<close>,
  seven days, whatever the configuration says.
\<close>

theorem session_ttl_is_seven_days:
  "(Register L uc now uuid w rreq = (Inr res, w') \<longrightarrow>
      map_option entry_ttl (st_cache w'
        (CacheKeyBuilder_RefreshToken (keyBuilder uc) (AuthResponse_RefreshToken res))) =
      Some (7 * Hour * 24)) \<and>
   (Login L uc now w lreq = (Inr res, w') \<longrightarrow>
      map_option entry_ttl (st_cache w'
        (CacheKeyBuilder_RefreshToken (keyBuilder uc) (AuthResponse_RefreshToken res))) =
      Some (7 * Hour * 24)) \<and>
   (RefreshToken L uc now w t = (Inr res, w') \<longrightarrow>
      map_option entry_ttl (st_cache w'
        (CacheKeyBuilder_RefreshToken (keyBuilder uc) (AuthResponse_RefreshToken res))) =
      Some (7 * Hour * 24)) \<and>
   7 * Hour * 24 = 604800 * Second"
  by (auto simp: Register_Inr_cache Login_Inr_cache RefreshToken_Inr_cache Hour_def)

text \<open>At concrete inputs: the registration, a login and a rotation of the run.\<close>

theorem session_ttl_is_seven_days_witness:
  "\<not> isl (fst registered) \<and> \<not> isl (fst logged_in) \<and> \<not> isl (fst later_refresh) \<and>
   map_option entry_ttl (st_cache (snd registered)
     (CacheKeyBuilder_RefreshToken (keyBuilder uc0)
        (AuthResponse_RefreshToken (projr (fst registered))))) = Some (7 * Hour * 24) \<and>
   map_option entry_ttl (st_cache (snd logged_in)
     (CacheKeyBuilder_RefreshToken (keyBuilder uc0)
        (AuthResponse_RefreshToken (projr (fst logged_in))))) = Some (7 * Hour * 24) \<and>
   map_option entry_ttl (st_cache (snd later_refresh)
     (CacheKeyBuilder_RefreshToken (keyBuilder uc0)
        (AuthResponse_RefreshToken (projr (fst later_refresh))))) = Some (7 * Hour * 24)"
proof -
  from registered_facts obtain atok rtok where
    r: "fst registered = Inr \<lparr> AuthResponse_AccessToken = atok,
       AuthResponse_RefreshToken = rtok, AuthResponse_User = alice_row \<rparr>"
    and tok: "alice_token = rtok"
    and u: "st_users (snd registered) = [alice_row]"
    and c: "st_cache (snd registered) = [CacheKeyBuilder_RefreshToken (keyBuilder uc0) rtok \<mapsto>
          \<lparr> entry_data = ''u-1'', entry_ttl = 7 * Hour * 24, entry_set_at = t0 \<rparr>]"
    by blast
  \<comment> \<open>Register\<close>
  have h1: "Register fake_libs uc0 t0 ''u-1'' w0 alice_req =
      (Inr (projr (fst registered)), snd registered)"
    using r by (simp add: registered_def [symmetric] prod_eq_iff)
  \<comment> \<open>Login\<close>
  have fe: "FindByEmail (snd registered) (LoginRequest_Email alice_login) = Inr alice_row"
    by (simp add: FindByEmail_def u alice_row_def alice_login_def)
  have cp: "bcrypt_CompareHashAndPassword fake_libs (User_PasswordHash alice_row)
      (LoginRequest_Password alice_login) = None"
    by (simp add: fake_libs_def alice_row_def alice_login_def)
  obtain a2 where a2: "GenerateAccessToken fake_libs (jwtSvc uc0) (t0 + 10 * Second)
      (User_ID alice_row) (User_Email alice_row) = Inr a2"
    using GenerateAccessToken_Inr by blast
  obtain r2 where r2: "GenerateRefreshToken fake_libs (jwtSvc uc0) (t0 + 10 * Second)
      (User_ID alice_row) = Inr r2"
    using GenerateRefreshToken_Inr by blast
  have h2: "Login fake_libs uc0 (t0 + 10 * Second) (snd registered) alice_login =
      (Inr (projr (fst logged_in)), snd logged_in)"
    unfolding logged_in_def by (simp add: Login_success [OF fe cp a2 r2])
  \<comment> \<open>RefreshToken\<close>
  obtain a3 where a3: "GenerateAccessToken fake_libs (jwtSvc uc0) (t0 + 5 * Second)
      (User_ID alice_row) (User_Email alice_row) = Inr a3"
    using GenerateAccessToken_Inr by blast
  obtain r3 where r3: "GenerateRefreshToken fake_libs (jwtSvc uc0) (t0 + 5 * Second)
      (User_ID alice_row) = Inr r3"
    using GenerateRefreshToken_Inr by blast
  have g3: "RedisCache_Get (st_cache (snd registered)) (t0 + 5 * Second)
      (CacheKeyBuilder_RefreshToken (keyBuilder uc0) rtok) = Inr ''u-1''"
    by (simp add: c RedisCache_Get_def entry_live_def Hour_def Second_def)
  have h3: "RefreshToken fake_libs uc0 (t0 + 5 * Second) (snd registered) alice_token =
      (Inr (projr (fst later_refresh)), snd later_refresh)"
    unfolding later_refresh_def tok
    by (simp add: RefreshToken_success [OF g3 FindByID_alice [OF u] a3 r3])
  have s1: "\<not> isl (fst registered)" using r by simp
  have s2: "\<not> isl (fst logged_in)"
    unfolding logged_in_def by (simp add: Login_success [OF fe cp a2 r2])
  have s3: "\<not> isl (fst later_refresh)"
    unfolding later_refresh_def tok
    by (simp add: RefreshToken_success [OF g3 FindByID_alice [OF u] a3 r3])
  from session_ttl_is_seven_days [where L = fake_libs and uc = uc0 and now = t0
      and uuid = "''u-1''" and w = w0 and rreq = alice_req
      and res = "projr (fst registered)" and w' = "snd registered"] h1
  have c1: "map_option entry_ttl (st_cache (snd registered)
     (CacheKeyBuilder_RefreshToken (keyBuilder uc0)
        (AuthResponse_RefreshToken (projr (fst registered))))) = Some (7 * Hour * 24)"
    by blast
  from session_ttl_is_seven_days [where L = fake_libs and uc = uc0
      and now = "t0 + 10 * Second" and w = "snd registered" and lreq = alice_login
      and res = "projr (fst logged_in)" and w' = "snd logged_in"] h2
  have c2: "map_option entry_ttl (st_cache (snd logged_in)
     (CacheKeyBuilder_RefreshToken (keyBuilder uc0)
        (AuthResponse_RefreshToken (projr (fst logged_in))))) = Some (7 * Hour * 24)"
    by blast
  from session_ttl_is_seven_days [where L = fake_libs and uc = uc0
      and now = "t0 + 5 * Second" and w = "snd registered" and t = alice_token
      and res = "projr (fst later_refresh)" and w' = "snd later_refresh"] h3
  have c3: "map_option entry_ttl (st_cache (snd later_refresh)
     (CacheKeyBuilder_RefreshToken (keyBuilder uc0)
        (AuthResponse_RefreshToken (projr (fst later_refresh))))) = Some (7 * Hour * 24)"
    by blast
  from s1 s2 s3 c1 c2 c3 show ?thesis by blast
qed

text \<open>
  The claim as stated fails: with a refresh-TTL of one hour the entry made by
  \<open>Register\<close> still has a TTL of 168 hours.
\<close>

theorem session_ttl_ignores_config:
  "\<not> isl (fst registered_1h) \<and>
   JWT_RefreshTokenExpiry (cfg (jwtSvc uc_1h)) = Hour \<and>
   map_option entry_ttl (st_cache (snd registered_1h)
     (CacheKeyBuilder_RefreshToken (keyBuilder uc_1h)
        (AuthResponse_RefreshToken (projr (fst registered_1h))))) = Some (168 * Hour) \<and>
   map_option entry_ttl (st_cache (snd registered_1h)
     (CacheKeyBuilder_RefreshToken (keyBuilder uc_1h)
        (AuthResponse_RefreshToken (projr (fst registered_1h))))) \<noteq>
     Some (JWT_RefreshTokenExpiry (cfg (jwtSvc uc_1h)))"
proof -
  obtain atok where a: "GenerateAccessToken fake_libs (jwtSvc uc_1h) t0 ''u-1''
      (RegisterRequest_Email alice_req) = Inr atok"
    using GenerateAccessToken_Inr by blast
  obtain rtok where r: "GenerateRefreshToken fake_libs (jwtSvc uc_1h) t0 ''u-1'' = Inr rtok"
    using GenerateRefreshToken_Inr by blast
  note e = Register_success [where hashedPass = "''$2a$12$correct horse''"
      and L = fake_libs and uc = uc_1h and w = w0 and req = alice_req, OF _ _ _ _ _ _ a r]
  have ok: "\<not> isl (fst registered_1h)"
    unfolding registered_1h_def
    by (subst e) (simp_all add: alice_req_def fake_libs_def w0_def ExistsByEmail_def)
  then have "Register fake_libs uc_1h t0 ''u-1'' w0 alice_req =
      (Inr (projr (fst registered_1h)), snd registered_1h)"
    by (simp add: registered_1h_def [symmetric] prod_eq_iff)
  from Register_Inr_cache [OF this] ok
  show ?thesis
    by (simp add: uc_1h_def Hour_def Second_def)
qed

text \<open>
  C3. The claim: the user in the response of \<open>Register\<close>, \<open>Login\<close> and \<open>RefreshToken\<close>
  has an empty password hash.  \<open>Login\<close> and \<open>RefreshToken\<close> empty the field before they
  return; \<open>Register\<close> does not: in the run, the user it returns carries the hash.
\<close>

theorem register_returns_password_hash:
  "\<not> isl (fst registered) \<and>
   User_PasswordHash (AuthResponse_User (projr (fst registered))) = ''$2a$12$correct horse''"
proof -
  from registered_eq obtain atok rtok where
    reg: "registered =
    (Inr \<lparr> AuthResponse_AccessToken = atok, AuthResponse_RefreshToken = rtok,
            AuthResponse_User = alice_row \<rparr>,
     \<lparr> st_users = [alice_row], st_roles = [], st_user_roles = [],
       st_cache = [CacheKeyBuilder_RefreshToken (keyBuilder uc0) rtok \<mapsto>
          \<lparr> entry_data = ''u-1'', entry_ttl = 7 * Hour * 24, entry_set_at = t0 \<rparr>] \<rparr>)"
    by blast
  show ?thesis by (simp add: reg alice_row_def)
qed

text \<open>
  C4. A login with a wrong password for an existing user fails with the error
  \<open>invalid password\<close>, a login with an email that no user has fails with the error of
  the repository's lookup, and the handler answers the two alike: status 401 with the
  body \<open>Invalid email or password\<close>, no cookie, and the stores unchanged.  The two
  errors differ inside the service; what the caller of the API sees does not.
\<close>

theorem login_failures_indistinguishable:
  assumes "FindByEmail w (LoginRequest_Email req) = Inr user"
    and "bcrypt_CompareHashAndPassword L (User_PasswordHash user) (LoginRequest_Password req) =
           Some ErrMismatchedHashAndPassword"
    and "FindByEmail w (LoginRequest_Email req') = Inl e"
  shows "Login L uc now w req = (Inl ErrInvalidPassword, w) \<and>
     Login L uc now w req' = (Inl e, w) \<and>
     AuthHandler_Login L uc now w (Some req) =
       (\<lparr> status = 401, body = ErrorResponse ''Invalid email or password'', cookie = None \<rparr>, w) \<and>
     AuthHandler_Login L uc now w (Some req') = AuthHandler_Login L uc now w (Some req)"
proof -
  have a: "Login L uc now w req = (Inl ErrInvalidPassword, w)"
    using assms(1,2) by (simp add: Login_def ComparePassword_def)
  have b: "Login L uc now w req' = (Inl e, w)"
    using assms(3) by (simp add: Login_def)
  show ?thesis by (simp add: a b AuthHandler_Login_def)
qed

text \<open>At a concrete input: Alice's email with a wrong password, and an unknown email.\<close>

theorem login_failures_indistinguishable_witness:
  "FindByEmail (snd registered) (LoginRequest_Email wrong_password) = Inr alice_row \<and>
   bcrypt_CompareHashAndPassword fake_libs (User_PasswordHash alice_row)
     (LoginRequest_Password wrong_password) = Some ErrMismatchedHashAndPassword \<and>
   FindByEmail (snd registered) (LoginRequest_Email unknown_email) = Inl ErrUserNotFound \<and>
   Login fake_libs uc0 (t0 + 10 * Second) (snd registered) wrong_password =
     (Inl ErrInvalidPassword, snd registered) \<and>
   Login fake_libs uc0 (t0 + 10 * Second) (snd registered) unknown_email =
     (Inl ErrUserNotFound, snd registered) \<and>
   AuthHandler_Login fake_libs uc0 (t0 + 10 * Second) (snd registered) (Some wrong_password) =
     (\<lparr> status = 401, body = ErrorResponse ''Invalid email or password'', cookie = None \<rparr>,
      snd registered) \<and>
   AuthHandler_Login fake_libs uc0 (t0 + 10 * Second) (snd registered) (Some unknown_email) =
     AuthHandler_Login fake_libs uc0 (t0 + 10 * Second) (snd registered) (Some wrong_password)"
proof -
  from registered_facts have u: "st_users (snd registered) = [alice_row]" by blast
  have h1: "FindByEmail (snd registered) (LoginRequest_Email wrong_password) = Inr alice_row"
    by (simp add: FindByEmail_def u alice_row_def wrong_password_def)
  have h2: "bcrypt_CompareHashAndPassword fake_libs (User_PasswordHash alice_row)
     (LoginRequest_Password wrong_password) = Some ErrMismatchedHashAndPassword"
    by (simp add: fake_libs_def alice_row_def wrong_password_def)
  have h3: "FindByEmail (snd registered) (LoginRequest_Email unknown_email) = Inl ErrUserNotFound"
    by (simp add: FindByEmail_def u alice_row_def unknown_email_def)
  from h1 h2 h3 login_failures_indistinguishable [OF h1 h2 h3, of uc0 "t0 + 10 * Second"]
  show ?thesis by blast
qed

text \<open>
  C5. The claim: \<open>RefreshToken(t)\<close> twice in a row, the second call fails with the
  not-found error.  As amended: it does so whenever the refresh token issued by the first
  call is not the string \<open>t\<close> itself.
\<close>

theorem refresh_rotation:
  assumes "RefreshToken L uc now w t = (Inr res, w')"
    and "AuthResponse_RefreshToken res \<noteq> t"
  shows "RefreshToken L uc now' w' t =
     (Inl (ErrKeyNotFound (CacheKeyBuilder_RefreshToken (keyBuilder uc) t)), w')"
proof -
  from RefreshToken_Inr_cases [OF assms(1)] obtain user :: User where
    w': "w' = w\<lparr> st_cache := RedisCache_Set
            (RedisCache_Delete (st_cache w) [CacheKeyBuilder_RefreshToken (keyBuilder uc) t])
            now (CacheKeyBuilder_RefreshToken (keyBuilder uc) (AuthResponse_RefreshToken res))
            (User_ID user) (7 * Hour * 24) \<rparr>" by blast
  have "st_cache w' (CacheKeyBuilder_RefreshToken (keyBuilder uc) t) = None"
    using assms(2) by (simp add: w' RedisCache_Set_def refresh_key_inject)
  then show ?thesis
    by (simp add: RefreshToken_def Let_def RedisCache_Get_def)
qed

text \<open>
  At a concrete input: Alice's token is rotated five seconds after it was issued; a
  second later the old token is not found.
\<close>

theorem refresh_rotation_witness:
  "\<not> isl (fst registered) \<and> \<not> isl (fst later_refresh) \<and>
   AuthResponse_RefreshToken (projr (fst later_refresh)) \<noteq> alice_token \<and>
   RefreshToken fake_libs uc0 (t0 + 6 * Second) (snd later_refresh) alice_token =
     (Inl (ErrKeyNotFound (CacheKeyBuilder_RefreshToken (keyBuilder uc0) alice_token)),
      snd later_refresh)"
proof -
  from registered_facts obtain atok rtok where
    r: "fst registered = Inr \<lparr> AuthResponse_AccessToken = atok,
       AuthResponse_RefreshToken = rtok, AuthResponse_User = alice_row \<rparr>"
    and tok: "alice_token = rtok"
    and g: "GenerateRefreshToken fake_libs jwt0 t0 ''u-1'' = Inr rtok"
    and u: "st_users (snd registered) = [alice_row]"
    and c: "st_cache (snd registered) = [CacheKeyBuilder_RefreshToken (keyBuilder uc0) rtok \<mapsto>
          \<lparr> entry_data = ''u-1'', entry_ttl = 7 * Hour * 24, entry_set_at = t0 \<rparr>]"
    by blast
  have id: "User_ID alice_row = ''u-1''" by (simp add: alice_row_def)
  have js: "jwtSvc uc0 = jwt0" by (simp add: uc0_def)
  obtain a1 where a1: "GenerateAccessToken fake_libs (jwtSvc uc0) (t0 + 5 * Second)
      (User_ID alice_row) (User_Email alice_row) = Inr a1"
    using GenerateAccessToken_Inr by blast
  obtain r1 where r1: "GenerateRefreshToken fake_libs (jwtSvc uc0) (t0 + 5 * Second)
      (User_ID alice_row) = Inr r1"
    using GenerateRefreshToken_Inr by blast
  have ne: "r1 \<noteq> rtok"
  proof
    assume "r1 = rtok"
    with r1 have "GenerateRefreshToken fake_libs jwt0 (t0 + 5 * Second) ''u-1'' = Inr rtok"
      by (simp add: id js)
    from GenerateRefreshToken_iat [OF this g]
    show False by (simp add: NewNumericDate_def t0_def Second_def)
  qed
  have g1: "RedisCache_Get (st_cache (snd registered)) (t0 + 5 * Second)
      (CacheKeyBuilder_RefreshToken (keyBuilder uc0) rtok) = Inr ''u-1''"
    by (simp add: c RedisCache_Get_def entry_live_def Hour_def Second_def)
  note f1 = RefreshToken_success [OF g1 FindByID_alice [OF u] a1 r1]
  have lr: "later_refresh = (Inr (projr (fst later_refresh)), snd later_refresh)"
    and nt: "AuthResponse_RefreshToken (projr (fst later_refresh)) = r1"
    unfolding later_refresh_def tok by (simp_all add: f1)
  have h1: "RefreshToken fake_libs uc0 (t0 + 5 * Second) (snd registered) alice_token =
      (Inr (projr (fst later_refresh)), snd later_refresh)"
    using lr by (simp add: later_refresh_def)
  have h2: "AuthResponse_RefreshToken (projr (fst later_refresh)) \<noteq> alice_token"
    using ne by (simp add: nt tok)
  have ok: "\<not> isl (fst registered)" using r by simp
  from refresh_rotation [OF h1 h2, of "t0 + 6 * Second"] h2 lr ok
  show ?thesis by (metis fst_conv sum.disc(2))
qed

text \<open>
  The claim as stated fails: a token carries no unique id, so a rotation within the
  second in which \<open>t\<close> was issued issues the string \<open>t\<close> again and sets its entry anew
  right after deleting it.  In the run, Alice's token is rotated 1 ns after it was
  issued, and the second rotation with the same token, 1 ns later, succeeds.
\<close>

theorem immediate_second_refresh_succeeds:
  "\<not> isl (fst registered) \<and> \<not> isl (fst first_refresh) \<and> \<not> isl (fst second_refresh) \<and>
   fst second_refresh \<noteq>
     Inl (ErrKeyNotFound (CacheKeyBuilder_RefreshToken (keyBuilder uc0) alice_token))"
proof -
  from registered_facts obtain atok rtok where
    r: "fst registered = Inr \<lparr> AuthResponse_AccessToken = atok,
       AuthResponse_RefreshToken = rtok, AuthResponse_User = alice_row \<rparr>"
    and tok: "alice_token = rtok"
    and g: "GenerateRefreshToken fake_libs jwt0 t0 ''u-1'' = Inr rtok"
    and u: "st_users (snd registered) = [alice_row]"
    and c: "st_cache (snd registered) = [CacheKeyBuilder_RefreshToken (keyBuilder uc0) rtok \<mapsto>
          \<lparr> entry_data = ''u-1'', entry_ttl = 7 * Hour * 24, entry_set_at = t0 \<rparr>]"
    by blast
  have id: "User_ID alice_row = ''u-1''" by (simp add: alice_row_def)
  have js: "jwtSvc uc0 = jwt0" by (simp add: uc0_def)
  \<comment> \<open>the first rotation, within the second in which the token was issued\<close>
  obtain a1 where a1: "GenerateAccessToken fake_libs (jwtSvc uc0) (t0 + 1)
      (User_ID alice_row) (User_Email alice_row) = Inr a1"
    using GenerateAccessToken_Inr by blast
  have r1: "GenerateRefreshToken fake_libs (jwtSvc uc0) (t0 + 1) (User_ID alice_row) = Inr rtok"
    by (simp add: id js same_second_token g)
  have g1: "RedisCache_Get (st_cache (snd registered)) (t0 + 1)
      (CacheKeyBuilder_RefreshToken (keyBuilder uc0) rtok) = Inr ''u-1''"
    by (simp add: c RedisCache_Get_def entry_live_def Hour_def Second_def)
  note f1 = RefreshToken_success [OF g1 FindByID_alice [OF u] a1 r1]
  have fr: "first_refresh = (Inr \<lparr> AuthResponse_AccessToken = a1, AuthResponse_RefreshToken = rtok,
             AuthResponse_User = alice_row\<lparr> User_PasswordHash := [] \<rparr> \<rparr>,
      (snd registered)\<lparr> st_cache := RedisCache_Set
            (RedisCache_Delete (st_cache (snd registered)) [CacheKeyBuilder_RefreshToken (keyBuilder uc0) rtok])
            (t0 + 1) (CacheKeyBuilder_RefreshToken (keyBuilder uc0) rtok) (User_ID alice_row) (7 * Hour * 24) \<rparr>)"
    unfolding first_refresh_def tok by (rule f1)
  \<comment> \<open>the second call finds the entry the first one has just set again\<close>
  obtain a2 where a2: "GenerateAccessToken fake_libs (jwtSvc uc0) (t0 + 2)
      (User_ID alice_row) (User_Email alice_row) = Inr a2"
    using GenerateAccessToken_Inr by blast
  obtain r2 where r2: "GenerateRefreshToken fake_libs (jwtSvc uc0) (t0 + 2) (User_ID alice_row) = Inr r2"
    using GenerateRefreshToken_Inr by blast
  have u2: "st_users (snd first_refresh) = [alice_row]" by (simp add: fr u)
  have g2: "RedisCache_Get (st_cache (snd first_refresh)) (t0 + 2)
      (CacheKeyBuilder_RefreshToken (keyBuilder uc0) rtok) = Inr ''u-1''"
    by (simp add: fr RedisCache_Get_def RedisCache_Set_def entry_live_def Hour_def Second_def id)
  note f2 = RefreshToken_success [OF g2 FindByID_alice [OF u2] a2 r2]
  have sr: "fst second_refresh = Inr \<lparr> AuthResponse_AccessToken = a2, AuthResponse_RefreshToken = r2,
             AuthResponse_User = alice_row\<lparr> User_PasswordHash := [] \<rparr> \<rparr>"
    unfolding second_refresh_def tok by (simp add: f2)
  show ?thesis by (simp add: r fr sr)
qed

text \<open>
  C8. The claim: for every well-formed email, password of at least 8 characters and
  name, \<open>Register\<close> succeeds once per email, and a second \<open>Register\<close> with the same email
  fails with the conflict error whatever its password.  As amended: with an email that
  both checks accept and that no user has, a password of at least 8 and at most 72 bytes
  and any name, \<open>Register\<close> succeeds; and in the stores it leaves, every further
  \<open>Register\<close> with the same email fails with the error \<open>email already registered\<close>,
  which the handler answers with status 409, whatever password and name it gives (of
  any length): the email is looked up before the password is measured or hashed.
\<close>

theorem register_once_per_email:
  assumes "mail_ParseAddress L email = None"
    and "regexp_MatchString L emailRegex email"
    and "8 \<le> length password"
    and "length password \<le> 72"
    and "\<not> ExistsByEmail w email"
  shows "\<exists>res w1.
     Register L uc now uuid w \<lparr> RegisterRequest_Email = email,
        RegisterRequest_Password = password, RegisterRequest_Name = name \<rparr> = (Inr res, w1) \<and>
     User_Email (AuthResponse_User res) = email \<and>
     (\<forall>now' uuid' password' name'.
        Register L uc now' uuid' w1 \<lparr> RegisterRequest_Email = email,
          RegisterRequest_Password = password', RegisterRequest_Name = name' \<rparr> =
          (Inl ErrEmailAlreadyRegistered, w1) \<and>
        AuthHandler_Register L uc now' uuid' w1 (Some \<lparr> RegisterRequest_Email = email,
          RegisterRequest_Password = password', RegisterRequest_Name = name' \<rparr>) =
          (\<lparr> status = 409, body = ErrorResponse ''Email already registered'', cookie = None \<rparr>, w1))"
proof -
  let ?req = "\<lparr> RegisterRequest_Email = email,
        RegisterRequest_Password = password, RegisterRequest_Name = name \<rparr>"
  obtain atok where a: "GenerateAccessToken L (jwtSvc uc) now uuid (RegisterRequest_Email ?req) = Inr atok"
    using GenerateAccessToken_Inr by blast
  obtain rtok where r: "GenerateRefreshToken L (jwtSvc uc) now uuid = Inr rtok"
    using GenerateRefreshToken_Inr by blast
  let ?row = "\<lparr> User_ID = uuid, User_Email = email,
              User_PasswordHash = bcrypt_hash L password 12, User_Name = name,
              User_AvatarURL = None, User_IsActive = True, User_EmailVerifiedAt = None,
              User_LastLoginAt = None, User_CreatedAt = now, User_UpdatedAt = now,
              User_DeletedAt = None \<rparr>"
  let ?w1 = "w\<lparr> st_users := st_users w @ [?row],
        st_cache := RedisCache_Set (st_cache w) now
              (CacheKeyBuilder_RefreshToken (keyBuilder uc) rtok) uuid (7 * Hour * 24) \<rparr>"
  let ?res = "\<lparr> AuthResponse_AccessToken = atok, AuthResponse_RefreshToken = rtok,
            AuthResponse_User = ?row \<rparr>"
  have first: "Register L uc now uuid w ?req = (Inr ?res, ?w1)"
    using Register_success [of L ?req w "bcrypt_hash L password 12" uc now uuid atok rtok]
      assms a r by simp
  have ex: "ExistsByEmail ?w1 email"
    by (simp add: ExistsByEmail_def)
  have second: "Register L uc now' uuid' ?w1 \<lparr> RegisterRequest_Email = email,
          RegisterRequest_Password = password', RegisterRequest_Name = name' \<rparr> =
          (Inl ErrEmailAlreadyRegistered, ?w1)" for now' uuid' password' name'
    using assms(1,2) ex by (intro Register_conflict) simp_all
  have third: "AuthHandler_Register L uc now' uuid' ?w1 (Some \<lparr> RegisterRequest_Email = email,
          RegisterRequest_Password = password', RegisterRequest_Name = name' \<rparr>) =
          (\<lparr> status = 409, body = ErrorResponse ''Email already registered'', cookie = None \<rparr>, ?w1)"
    for now' uuid' password' name'
    by (simp only: AuthHandler_Register_def option.case second prod.case sum.case
        Contains_already_registered if_True)
  from first second third show ?thesis by auto
qed

text \<open>
  At a concrete input: Alice's registration, then a registration with her email and the
  password \<open>short\<close>.
\<close>

theorem register_once_per_email_witness:
  "mail_ParseAddress fake_libs ''alice@example.com'' = None \<and>
   regexp_MatchString fake_libs emailRegex ''alice@example.com'' \<and>
   8 \<le> length ''correct horse'' \<and> length ''correct horse'' \<le> 72 \<and>
   \<not> ExistsByEmail w0 ''alice@example.com'' \<and>
   \<not> isl (fst registered) \<and>
   length (RegisterRequest_Password mallory_req) < 8 \<and>
   Register fake_libs uc0 (t0 + Second) ''u-2'' (snd registered) mallory_req =
     (Inl ErrEmailAlreadyRegistered, snd registered) \<and>
   AuthHandler_Register fake_libs uc0 (t0 + Second) ''u-2'' (snd registered) (Some mallory_req) =
     (\<lparr> status = 409, body = ErrorResponse ''Email already registered'', cookie = None \<rparr>,
      snd registered)"
proof -
  have h1: "mail_ParseAddress fake_libs ''alice@example.com'' = None"
    by (simp add: fake_libs_def)
  have h2: "regexp_MatchString fake_libs emailRegex ''alice@example.com''"
    by (simp add: fake_libs_def)
  have h3: "8 \<le> length ''correct horse''" by simp
  have h4: "length ''correct horse'' \<le> 72" by simp
  have h5: "\<not> ExistsByEmail w0 ''alice@example.com''"
    by (simp add: ExistsByEmail_def w0_def)
  from register_once_per_email [OF h1 h2 h3 h4 h5, of uc0 t0 "''u-1''" "''Alice''"]
  obtain res w1 where
    f: "Register fake_libs uc0 t0 ''u-1'' w0 \<lparr> RegisterRequest_Email = ''alice@example.com'',
        RegisterRequest_Password = ''correct horse'', RegisterRequest_Name = ''Alice'' \<rparr> = (Inr res, w1)"
    and s: "\<And>now' uuid' password' name'.
        Register fake_libs uc0 now' uuid' w1 \<lparr> RegisterRequest_Email = ''alice@example.com'',
          RegisterRequest_Password = password', RegisterRequest_Name = name' \<rparr> =
          (Inl ErrEmailAlreadyRegistered, w1) \<and>
        AuthHandler_Register fake_libs uc0 now' uuid' w1 (Some \<lparr> RegisterRequest_Email = ''alice@example.com'',
          RegisterRequest_Password = password', RegisterRequest_Name = name' \<rparr>) =
          (\<lparr> status = 409, body = ErrorResponse ''Email already registered'', cookie = None \<rparr>, w1)"
    by blast
  from f have reg: "registered = (Inr res, w1)"
    by (simp add: registered_def alice_req_def)
  have c: "\<not> isl (fst registered)" "snd registered = w1" by (simp_all add: reg)
  have l: "length (RegisterRequest_Password mallory_req) < 8" by (simp add: mallory_req_def)
  from s [of "t0 + Second" "''u-2''" "''short''" "''Mallory''"] h1 h2 h3 h4 h5 c l
  show ?thesis by (simp add: mallory_req_def)
qed

text \<open>
  The claim as stated fails: \<open>bcrypt.GenerateFromPassword\<close> refuses a password of more
  than 72 bytes.  On empty stores, the registration of Alice's email with a password of
  73 bytes passes the checks of the email and of the minimal length, and fails with the
  error \<open>failed to hash password\<close>; no user is created.
\<close>

theorem register_rejects_long_password:
  "mail_ParseAddress fake_libs (RegisterRequest_Email long_password_req) = None \<and>
   regexp_MatchString fake_libs emailRegex (RegisterRequest_Email long_password_req) \<and>
   8 \<le> length (RegisterRequest_Password long_password_req) \<and>
   \<not> ExistsByEmail w0 (RegisterRequest_Email long_password_req) \<and>
   Register fake_libs uc0 t0 ''u-1'' w0 long_password_req =
     (Inl (ErrHashFailed ''bcrypt: password length exceeds 72 bytes''), w0)"
proof -
  have l: "length (RegisterRequest_Password long_password_req) = 73"
    by (simp add: long_password_req_def)
  have ne: "RegisterRequest_Password long_password_req \<noteq> []"
    using l by auto
  have h: "HashPassword fake_libs (RegisterRequest_Password long_password_req) =
      Inl (ErrHashFailed ''bcrypt: password length exceeds 72 bytes'')"
    by (simp add: HashPassword_def GenerateFromPassword_def ne l)
  have e: "RegisterRequest_Email long_password_req = ''alice@example.com''"
    by (simp add: long_password_req_def)
  have m: "mail_ParseAddress fake_libs ''alice@example.com'' = None"
    and r: "regexp_MatchString fake_libs emailRegex ''alice@example.com''"
    by (simp_all add: fake_libs_def)
  have x: "\<not> ExistsByEmail w0 ''alice@example.com''"
    by (simp add: ExistsByEmail_def w0_def)
  have "Register fake_libs uc0 t0 ''u-1'' w0 long_password_req =
     (Inl (ErrHashFailed ''bcrypt: password length exceeds 72 bytes''), w0)"
    by (simp add: Register_def e m r x l h)
  with m r x l show ?thesis by (simp add: e)
qed




end
